theory Spec2Isabelle
  imports Complex_Main "HOL-Library.Product_Lexorder" "HOL-Library.AList"
begin

section \<open>Vienna Cabaret Theater API: schemas\<close>

text \<open>
  The backend consists of \<^verbatim>\<open>schemas.py\<close> (six pydantic models, one per MongoDB
  collection) and \<^verbatim>\<open>main.py\<close> (the FastAPI handlers). This theory embeds the models as
  records, the collections as lists of stored documents and the handlers as functions
  from the store to the new store and the response.
\<close>

subsection \<open>Timestamps\<close>

text \<open>
  A naive \<^verbatim>\<open>datetime\<close>, with the fields Python gives it. \<^verbatim>\<open>replace\<close> is record update.
  Naive datetimes compare field by field from the year down, which is the lexicographic
  order of \<open>dt_key\<close>.
\<close>

record datetime =
  year :: nat
  month :: nat
  day :: nat
  hour :: nat
  minute :: nat
  second :: nat
  microsecond :: nat

definition dt_key :: "datetime \<Rightarrow> nat \<times> nat \<times> nat \<times> nat \<times> nat \<times> nat \<times> nat" where
  "dt_key t = (year t, month t, day t, hour t, minute t, second t, microsecond t)"

definition digit :: "nat \<Rightarrow> char" where
  "digit n = ''0123456789'' ! (n mod 10)"

text \<open>
  \<^verbatim>\<open>strftime("%Y-%m")\<close>: the year in decimal (four digits for every year from 1000 on),
  a hyphen, the month zero-padded to two digits.
\<close>

definition strftime_Ym :: "datetime \<Rightarrow> string" where
  "strftime_Ym t =
     [digit (year t div 1000), digit (year t div 100), digit (year t div 10), digit (year t),
      CHR ''-'', digit (month t div 10), digit (month t)]"

subsection \<open>The models of schemas.py\<close>

text \<open>
  \<^verbatim>\<open>float\<close> fields are taken as reals; \<^verbatim>\<open>Optional[str]\<close> is \<open>string option\<close>. The records
  hold values already of the declared field types; the \<^verbatim>\<open>Field\<close> constraints are checked
  by the \<open>_errors\<close> functions below.
\<close>

record Event =
  title :: string
  description :: string
  genre :: string
  date :: datetime
  duration_minutes :: int
  price_eur :: real
  seats_total :: int
  seats_available :: int
  image_url :: "string option"

record Reservation =
  event_id :: string
  name :: string
  email :: string
  tickets :: int
  "note" :: "string option"

record Ownerprofile =
  name :: string
  role :: string
  bio :: string
  image_url :: "string option"
  instagram :: "string option"
  website :: "string option"

record Theater =
  name :: string
  tagline :: string
  story :: string
  address :: string
  phone :: string
  email :: string
  opening_hours :: "string option"
  transport_howto :: "string option"

record Contactmessage =
  name :: string
  email :: string
  subject :: string
  message :: string

record Video =
  month_key :: string
  video_url :: string
  caption :: "string option"

subsection \<open>Validation\<close>

text \<open>
  Constructing a model validates every field and raises one \<^verbatim>\<open>ValidationError\<close> that
  lists the fields whose constraint failed, in declaration order. A field declared
  without \<^verbatim>\<open>ge\<close>, \<^verbatim>\<open>le\<close> or \<^verbatim>\<open>min_length\<close> has no constraint beyond its type; the
  \<^verbatim>\<open>description\<close> of a field is documentation only.
\<close>

datatype validation_error = ValidationError "string list"

definition Event_errors :: "Event \<Rightarrow> string list" where
  "Event_errors e =
     (if 10 \<le> duration_minutes e \<and> duration_minutes e \<le> 300 then [] else [''duration_minutes'']) @
     (if 0 \<le> price_eur e then [] else [''price_eur'']) @
     (if 1 \<le> seats_total e then [] else [''seats_total'']) @
     (if 0 \<le> seats_available e then [] else [''seats_available''])"

definition Event_init :: "Event \<Rightarrow> validation_error + Event" where
  "Event_init e = (if Event_errors e = [] then Inr e else Inl (ValidationError (Event_errors e)))"

text \<open>
  \<^verbatim>\<open>EmailStr\<close> is checked by the email-validator package; the check is the parameter
  \<open>EmailStr\<close>.
\<close>

definition Reservation_errors :: "(string \<Rightarrow> bool) \<Rightarrow> Reservation \<Rightarrow> string list" where
  "Reservation_errors EmailStr r =
     (if EmailStr (Reservation.email r) then [] else [''email'']) @
     (if 1 \<le> tickets r \<and> tickets r \<le> 10 then [] else [''tickets''])"

definition Reservation_init ::
  "(string \<Rightarrow> bool) \<Rightarrow> Reservation \<Rightarrow> validation_error + Reservation" where
  "Reservation_init EmailStr r =
     (if Reservation_errors EmailStr r = [] then Inr r
      else Inl (ValidationError (Reservation_errors EmailStr r)))"

definition Video_errors :: "Video \<Rightarrow> string list" where
  "Video_errors v = []"

definition Video_init :: "Video \<Rightarrow> validation_error + Video" where
  "Video_init v = (if Video_errors v = [] then Inr v else Inl (ValidationError (Video_errors v)))"

text \<open>
  The month-key format as the specification words it: four digits, a hyphen, two digits.
\<close>

definition is_digit :: "char \<Rightarrow> bool" where
  "is_digit c = ((48::nat) \<le> of_char c \<and> of_char c \<le> (57::nat))"

definition month_key_format :: "string \<Rightarrow> bool" where
  "month_key_format s =
     (length s = 7 \<and> list_all is_digit (take 4 s) \<and> s ! 4 = CHR ''-'' \<and>
      list_all is_digit (drop 5 s))"

section \<open>The document store\<close>

subsection \<open>Documents and collections\<close>

text \<open>
  A document's \<^verbatim>\<open>_id\<close> is a BSON ObjectId or, for documents inserted with one, a string.
  An ObjectId is represented by its 24-digit hexadecimal text, which is what \<^verbatim>\<open>str\<close>
  gives for it.
\<close>

datatype bson_id = Oid string | StrId string

fun str_id :: "bson_id \<Rightarrow> string" where
  "str_id (Oid h) = h"
| "str_id (StrId s) = s"

text \<open>
  A stored document: the \<^verbatim>\<open>_id\<close>, the two timestamps the store keeps, and the fields of
  the model it was created from. Every document of a collection was written from the
  collection's model, so its fields are present and of the model's types.
\<close>

record 'a document =
  doc_id :: bson_id
  created_at :: datetime
  updated_at :: datetime
  body :: 'a

text \<open>
  One list per collection, in insertion order; the collection of a model is named by the
  lowercased class name (\<^verbatim>\<open>collection_name\<close>).
\<close>

record database =
  theater :: "Theater document list"
  ownerprofile :: "Ownerprofile document list"
  event :: "Event document list"
  reservation :: "Reservation document list"
  contactmessage :: "Contactmessage document list"
  video :: "Video document list"

text \<open>
  What a handler call takes from outside the store: the \<open>k\<close>-th reading of the clock
  during the call (\<^verbatim>\<open>datetime.utcnow()\<close>), the \<open>k\<close>-th identifier the driver generates
  during the call, and \<^verbatim>\<open>bson.ObjectId(s)\<close> on a string, which is \<open>None\<close> where bson
  raises \<^verbatim>\<open>InvalidId\<close>. The store is taken to be reachable: no call fails for the
  connection.
\<close>

record env =
  utcnow :: "nat \<Rightarrow> datetime"
  new_oid :: "nat \<Rightarrow> string"
  ObjectId :: "string \<Rightarrow> string option"

subsection \<open>The pymongo operations the handlers use\<close>

text \<open>
  Each operation is one indivisible access to the collection. \<^verbatim>\<open>find_one\<close> with a filter
  returns the first document that matches.
\<close>

definition find_one :: "('d \<Rightarrow> bool) \<Rightarrow> 'd list \<Rightarrow> 'd option" where
  "find_one flt docs = List.find flt docs"

text \<open>
  \<^verbatim>\<open>find_one(sort=[(key, -1)])\<close>: a document whose key is greatest, the earliest inserted
  among equals; absent on an empty collection.
\<close>

fun find_one_sort_desc :: "('d \<Rightarrow> 'k::linorder) \<Rightarrow> 'd list \<Rightarrow> 'd option" where
  "find_one_sort_desc key [] = None"
| "find_one_sort_desc key (d # ds) =
     (case find_one_sort_desc key ds of
        None \<Rightarrow> Some d
      | Some m \<Rightarrow> if key d < key m then Some m else Some d)"

text \<open>
  \<^verbatim>\<open>find({}).sort(key, 1)\<close>: all documents by ascending key; documents with equal keys
  stay in insertion order.
\<close>

definition find_sort_asc :: "('d \<Rightarrow> 'k::linorder) \<Rightarrow> 'd list \<Rightarrow> 'd list" where
  "find_sort_asc key docs = sort_key key docs"

text \<open>
  \<^verbatim>\<open>find_one_and_update(filter, update, return_document=AFTER)\<close>: the first document that
  matches the filter is replaced by its update, and the updated document is returned with
  the new collection; \<open>None\<close>, and no change, when no document matches.
\<close>

fun find_one_and_update :: "('d \<Rightarrow> bool) \<Rightarrow> ('d \<Rightarrow> 'd) \<Rightarrow> 'd list \<Rightarrow> ('d \<times> 'd list) option" where
  "find_one_and_update flt upd [] = None"
| "find_one_and_update flt upd (d # ds) =
     (if flt d then Some (upd d, upd d # ds)
      else (case find_one_and_update flt upd ds of
              None \<Rightarrow> None
            | Some (u, ds') \<Rightarrow> Some (u, d # ds')))"

definition estimated_document_count :: "'d list \<Rightarrow> nat" where
  "estimated_document_count docs = length docs"

text \<open>
  Modelled from the spec: \<^verbatim>\<open>create_document\<close> of \<^verbatim>\<open>database.py\<close>, which is not among the
  sources. The specification gives it as \<^verbatim>\<open>create(collectionName, record)\<close> returning the
  generated id, and gives every document a creation timestamp. Here it appends one
  document made of the record, the generated ObjectId and the clock reading to the
  collection, and returns the id as text.
\<close>

definition create_document ::
  "datetime \<Rightarrow> string \<Rightarrow> 'a \<Rightarrow> 'a document list \<Rightarrow> 'a document list \<times> string" where
  "create_document now oid data docs =
     (docs @ [\<lparr>doc_id = Oid oid, created_at = now, updated_at = now, body = data\<rparr>], oid)"

subsection \<open>Documents as keyword arguments\<close>

text \<open>
  A handler builds a model from a stored document with \<^verbatim>\<open>Model(**d)\<close>, after adding or
  removing keys. The dictionary is kept in two parts: the entries under the model's
  declared field names, and the entries under any other key. A pydantic model ignores
  the keys it does not declare (the default \<^verbatim>\<open>extra = 'ignore'\<close>; no model of
  \<^verbatim>\<open>schemas.py\<close> changes it).
\<close>

datatype bson_value = IdValue bson_id | StrValue string | DateValue datetime

record 'a kwargs =
  declared :: 'a
  undeclared :: "(string \<times> bson_value) list"

definition doc_items :: "'a document \<Rightarrow> 'a kwargs" where
  "doc_items d =
     \<lparr>declared = body d,
      undeclared = [(''_id'', IdValue (doc_id d)), (''created_at'', DateValue (created_at d)),
                    (''updated_at'', DateValue (updated_at d))]\<rparr>"

text \<open>\<^verbatim>\<open>{**d, k: v}\<close> for a key \<open>k\<close> that the model does not declare.\<close>

definition dict_set :: "string \<Rightarrow> bson_value \<Rightarrow> 'a kwargs \<Rightarrow> 'a kwargs" where
  "dict_set k v kw = kw\<lparr>undeclared := AList.update k v (undeclared kw)\<rparr>"

text \<open>\<^verbatim>\<open>{k: v for k, v in d.items() if k != key}\<close> for a key the model does not declare.\<close>

definition dict_without :: "string \<Rightarrow> 'a kwargs \<Rightarrow> 'a kwargs" where
  "dict_without key kw = kw\<lparr>undeclared := filter (\<lambda>(k, v). k \<noteq> key) (undeclared kw)\<rparr>"

definition Event_kwargs :: "Event kwargs \<Rightarrow> validation_error + Event" where
  "Event_kwargs kw = Event_init (declared kw)"

definition Video_kwargs :: "Video kwargs \<Rightarrow> validation_error + Video" where
  "Video_kwargs kw = Video_init (declared kw)"

text \<open>A list comprehension over constructor calls: the first exception leaves it.\<close>

fun comprehension :: "('e + 'a) list \<Rightarrow> 'e + 'a list" where
  "comprehension [] = Inr []"
| "comprehension (Inl e # rs) = Inl e"
| "comprehension (Inr x # rs) = (case comprehension rs of Inl e \<Rightarrow> Inl e | Inr xs \<Rightarrow> Inr (x # xs))"

section \<open>The handlers of main.py\<close>

subsection \<open>GET /api/events\<close>

definition list_events :: "database \<Rightarrow> validation_error + Event list" where
  "list_events db =
     (let docs = find_sort_asc (\<lambda>d. dt_key (date (body d))) (event db)
      in comprehension
           (map (\<lambda>d. Event_kwargs (dict_set ''id'' (StrValue (str_id (doc_id d))) (doc_items d)))
                docs))"

subsection \<open>POST /api/reservations\<close>

datatype http_error = HTTPException nat string

record ReservationResponse =
  reservation_id :: string
  message :: string

text \<open>
  Lines 82 to 87: the lookup by \<^verbatim>\<open>ObjectId(res.event_id)\<close>, and by the string itself when
  \<^verbatim>\<open>ObjectId\<close> raises. (The \<^verbatim>\<open>find_one\<close> of line 79 is a read whose result is not used.)
\<close>

definition find_event :: "env \<Rightarrow> database \<Rightarrow> Reservation \<Rightarrow> Event document option" where
  "find_event env db res =
     (case ObjectId env (event_id res) of
        Some h \<Rightarrow> find_one (\<lambda>d. doc_id d = Oid h) (event db)
      | None \<Rightarrow> find_one (\<lambda>d. doc_id d = StrId (event_id res)) (event db))"

text \<open>
  Lines 97 to 101: the conditional decrement, on the \<^verbatim>\<open>_id\<close> of the event that was read
  and \<^verbatim>\<open>seats_available >= tickets\<close>. It adds \<^verbatim>\<open>-tickets\<close> to \<^verbatim>\<open>seats_available\<close> and
  sets \<^verbatim>\<open>updated_at\<close> to the clock reading.
\<close>

definition decrement_seats ::
  "datetime \<Rightarrow> Event document \<Rightarrow> Reservation \<Rightarrow> Event document list
     \<Rightarrow> (Event document \<times> Event document list) option" where
  "decrement_seats now ev res =
     find_one_and_update
       (\<lambda>d. doc_id d = doc_id ev \<and> tickets res \<le> seats_available (body d))
       (\<lambda>d. d\<lparr>body := (body d)\<lparr>seats_available := seats_available (body d) + (- tickets res)\<rparr>,
               updated_at := now\<rparr>)"

text \<open>
  The handler. \<^verbatim>\<open>int(event.get("seats_available", 0))\<close> reads the field, which every
  Event document has; the three \<^verbatim>\<open>HTTPException\<close>s carry the status and detail of the
  source.
\<close>

definition create_reservation ::
  "env \<Rightarrow> database \<Rightarrow> Reservation \<Rightarrow> database \<times> (http_error + ReservationResponse)" where
  "create_reservation env db res =
     (case find_event env db res of
        None \<Rightarrow> (db, Inl (HTTPException 404 ''Event not found''))
      | Some ev \<Rightarrow>
          if seats_available (body ev) < tickets res
          then (db, Inl (HTTPException 400 ''Not enough seats available''))
          else (case decrement_seats (utcnow env 0) ev res (event db) of
                  None \<Rightarrow> (db, Inl (HTTPException 409 ''Seats no longer available''))
                | Some (updated, events) \<Rightarrow>
                    (let (reservations, rid) =
                           create_document (utcnow env 1) (new_oid env 0) res (reservation db)
                     in (db\<lparr>event := events, reservation := reservations\<rparr>,
                         Inr \<lparr>reservation_id = rid, message = ''Reservation confirmed''\<rparr>))))"

text \<open>
  Requests are served independently, and another request's store operations may fall
  between two operations of this one. A request in progress is at one of its three store
  operations or finished: \<open>Lookup\<close> before the read of line 85 or 87, \<open>Update ev\<close> before the
  conditional update with the event \<open>ev\<close> that was read, \<open>Create\<close> before
  \<^verbatim>\<open>create_document\<close>. A step performs the operation and the code up to the next one.
\<close>

datatype request =
  Lookup | Update "Event document" | Create | Finished "http_error + ReservationResponse"

fun step :: "env \<Rightarrow> Reservation \<Rightarrow> database \<times> request \<Rightarrow> database \<times> request" where
  "step env res (db, Lookup) =
     (case find_event env db res of
        None \<Rightarrow> (db, Finished (Inl (HTTPException 404 ''Event not found'')))
      | Some ev \<Rightarrow>
          if seats_available (body ev) < tickets res
          then (db, Finished (Inl (HTTPException 400 ''Not enough seats available'')))
          else (db, Update ev))"
| "step env res (db, Update ev) =
     (case decrement_seats (utcnow env 0) ev res (event db) of
        None \<Rightarrow> (db, Finished (Inl (HTTPException 409 ''Seats no longer available'')))
      | Some (updated, events) \<Rightarrow> (db\<lparr>event := events\<rparr>, Create))"
| "step env res (db, Create) =
     (let (reservations, rid) =
            create_document (utcnow env 1) (new_oid env 0) res (reservation db)
      in (db\<lparr>reservation := reservations\<rparr>,
          Finished (Inr \<lparr>reservation_id = rid, message = ''Reservation confirmed''\<rparr>)))"
| "step env res (db, Finished r) = (db, Finished r)"

text \<open>
  Two requests in flight. The schedule says whose store operation comes next: \<open>True\<close>
  for the first request, \<open>False\<close> for the second.
\<close>

fun run ::
  "env \<times> Reservation \<Rightarrow> env \<times> Reservation \<Rightarrow> bool list
     \<Rightarrow> database \<times> request \<times> request \<Rightarrow> database \<times> request \<times> request" where
  "run a b [] c = c"
| "run a b (first # sched) (db, p, q) =
     (if first
      then (case step (fst a) (snd a) (db, p) of (db', p') \<Rightarrow> run a b sched (db', p', q))
      else (case step (fst b) (snd b) (db, q) of (db', q') \<Rightarrow> run a b sched (db', p, q')))"

subsection \<open>GET /api/video/current\<close>

definition current_video :: "env \<Rightarrow> database \<Rightarrow> validation_error + Video option" where
  "current_video env db =
     (let key = strftime_Ym (utcnow env 0);
          doc = find_one (\<lambda>d. month_key (body d) = key) (video db);
          doc' = (if doc = None then find_one_sort_desc (\<lambda>d. dt_key (created_at d)) (video db)
                  else doc)
      in case doc' of
           None \<Rightarrow> Inr None
         | Some d \<Rightarrow>
             (case Video_kwargs (dict_without ''_id'' (doc_items d)) of
                Inl e \<Rightarrow> Inl e
              | Inr v \<Rightarrow> Inr (Some v)))"

subsection \<open>POST /api/seed\<close>

text \<open>
  Python text is held as its UTF-8 bytes; these are the four characters of the demo
  content outside ASCII (a-umlaut, u-umlaut, sharp s, en dash).
\<close>

definition ae :: string where
  "ae = [CHR 0xC3, CHR 0xA4]"

definition ue :: string where
  "ue = [CHR 0xC3, CHR 0xBC]"

definition sz :: string where
  "sz = [CHR 0xC3, CHR 0x9F]"

definition en_dash :: string where
  "en_dash = [CHR 0xE2, CHR 0x80, CHR 0x93]"

definition demo_theater :: Theater where
  "demo_theater =
     \<lparr>Theater.name = ''Kabarett Salon am Kanal'',
      tagline = ''Quirky. Wien. Mit Schm'' @ ae @ ''h.'',
      story = ''Geboren aus dem Geist der Kaffeehauskultur, lebt unser kleines Kabarett die gro''
        @ sz @ ''e Liebe zum spontanen Wort. Zwischen Samtvorh'' @ ae
        @ ''ngen und Messinglampen trifft moderner Humor auf den Charme vergangener N'' @ ae
        @ ''chte.'',
      address = ''Schwarzer-B'' @ ae @ ''ren-Gasse 12, 1050 Wien'',
      phone = ''+43 1 234 56 78'',
      email = ''kontakt@kabarett-salon.at'',
      opening_hours = Some (''Di'' @ en_dash @ ''So ab 18:00''),
      transport_howto =
        Some (''U4 bis Kettenbr'' @ ue @ ''ckengasse, dann 5 Minuten zu Fu'' @ sz)\<rparr>"

definition owners :: "Ownerprofile list" where
  "owners =
     [\<lparr>Ownerprofile.name = ''Lena Weiss'',
       role = ''Leitung & B'' @ ue @ ''hne'',
       bio = ''Kabarettistin, Dramaturgin und Barfl'' @ ue
         @ ''sterin. Liebt Altbaufliesen und schnelle Pointen.'',
       image_url =
         Some ''https://images.unsplash.com/photo-1544005313-94ddf0286df2?w=600&h=600&fit=crop'',
       instagram = Some ''https://instagram.com/lenakabarett'',
       website = None\<rparr>,
      \<lparr>Ownerprofile.name = ''Milo Berger'',
       role = ''Impro & Programm'',
       bio = ''Impro-Spieler und Organisator. Findet Geschichten in jeder U-Bahnfahrt.'',
       image_url =
         Some ''https://images.unsplash.com/photo-1500648767791-00dcc994a43e?w=600&h=600&fit=crop'',
       instagram = None,
       website = Some ''https://miloberger.example.com''\<rparr>]"

definition demo_events :: "datetime \<Rightarrow> Event list" where
  "demo_events base_date =
     [\<lparr>title = ''Wiener Schm'' @ ae @ ''h & Schnapsidee'',
       description = ''Kabarett-Abend mit Biss und Bussi.'',
       genre = ''Kabarett'',
       date = base_date\<lparr>hour := 19, minute := 30, second := 0, microsecond := 0\<rparr>,
       duration_minutes = 90,
       price_eur = 18,
       seats_total = 60,
       seats_available = 60,
       image_url = Some
         ''https://images.unsplash.com/photo-1511671782779-c97d3d27a1d4?w=1200&auto=format&fit=crop&q=60''\<rparr>,
      \<lparr>title = ''Impro am Kanal: Alles kann passieren'',
       description = ''Improvisationstheater '' @ en_dash @ '' du gibst vor, wir legen los!'',
       genre = ''Impro'',
       date = base_date\<lparr>hour := 20, minute := 0, second := 0, microsecond := 0\<rparr>,
       duration_minutes = 75,
       price_eur = 15,
       seats_total = 60,
       seats_available = 60,
       image_url = Some
         ''https://images.unsplash.com/photo-1515165562835-c3b8c1ea0f59?w=1200&auto=format&fit=crop&q=60''\<rparr>,
      \<lparr>title = ''Werkstatt Humor: Basics f'' @ ue @ ''r Einsteiger:innen'',
       description = ''Workshop f'' @ ue @ ''r spontane B'' @ ue @ ''hnenmenschen.'',
       genre = ''Workshop'',
       date = base_date\<lparr>day := min (day base_date + 3) 28, hour := 18, minute := 0,
                          second := 0, microsecond := 0\<rparr>,
       duration_minutes = 120,
       price_eur = 40,
       seats_total = 20,
       seats_available = 20,
       image_url = Some
         ''https://images.unsplash.com/photo-1496307042754-b4aa456c4a2d?w=1200&auto=format&fit=crop&q=60''\<rparr>]"

record SeedResponse =
  status :: string
  message :: string

text \<open>
  \<^verbatim>\<open>for x in xs: create_document(name, x)\<close>; \<open>kt\<close> and \<open>ko\<close> count the clock readings
  and the generated identifiers of the call so far.
\<close>

fun create_documents ::
  "env \<Rightarrow> nat \<Rightarrow> nat \<Rightarrow> 'a list \<Rightarrow> 'a document list \<Rightarrow> 'a document list" where
  "create_documents env kt ko [] docs = docs"
| "create_documents env kt ko (x # xs) docs =
     create_documents env (Suc kt) (Suc ko) xs
       (fst (create_document (utcnow env kt) (new_oid env ko) x docs))"

text \<open>
  The clock is read by each \<^verbatim>\<open>create_document\<close>, for \<^verbatim>\<open>base_date\<close> (reading 3) and for
  the month key of the video (reading 7). The demo models pass their validation (see
  \<open>demo_events_valid\<close>), so no constructor raises.
\<close>

definition seed :: "env \<Rightarrow> database \<Rightarrow> database \<times> SeedResponse" where
  "seed env db =
     (if estimated_document_count (event db) > 0
      then (db, \<lparr>status = ''ok'', message = ''Already seeded''\<rparr>)
      else
        (let theaters =
               fst (create_document (utcnow env 0) (new_oid env 0) demo_theater (theater db));
             ownerprofiles = create_documents env 1 1 owners (ownerprofile db);
             base_date = utcnow env 3;
             events = create_documents env 4 3 (demo_events base_date) (event db);
             current = \<lparr>month_key = strftime_Ym (utcnow env 7),
                        video_url =
                          ''https://cdn.coverr.co/videos/coverr-theatre-actors-having-fun-0044/1080p.mp4'',
                        caption = Some ''Aus dem aktuellen Programm''\<rparr>;
             videos = fst (create_document (utcnow env 8) (new_oid env 6) current (video db))
         in (db\<lparr>theater := theaters, ownerprofile := ownerprofiles, event := events,
                 video := videos\<rparr>,
             \<lparr>status = ''ok'', message = ''Seeded demo data''\<rparr>)))"

section \<open>Notions and example data used by the properties\<close>

text \<open>The \<^verbatim>\<open>_id\<close> that the lookup of a reservation request asks the store for.\<close>

definition wanted_id :: "env \<Rightarrow> Reservation \<Rightarrow> bson_id" where
  "wanted_id env res =
     (case ObjectId env (event_id res) of Some h \<Rightarrow> Oid h | None \<Rightarrow> StrId (event_id res))"

text \<open>An event that the schema accepts although it offers more seats than it has.\<close>

definition overbooked_event :: Event where
  "overbooked_event =
     \<lparr>title = ''Late show'', description = ''One seat, five on offer'', genre = ''Kabarett'',
      date = \<lparr>year = 2024, month = 5, day = 17, hour = 20, minute = 0, second = 0,
              microsecond = 0\<rparr>,
      duration_minutes = 60, price_eur = 12, seats_total = 1, seats_available = 5,
      image_url = None\<rparr>"

text \<open>The seat invariant of an Event document.\<close>

definition seats_ok :: "Event document \<Rightarrow> bool" where
  "seats_ok d = (0 \<le> seats_available (body d) \<and> seats_available (body d) \<le> seats_total (body d))"

text \<open>
  The event document with a given \<^verbatim>\<open>_id\<close>, and the positions of a request in a race for
  the seats of the event \<open>i\<close>: still before its update, past its update, or failed for
  capacity. \<open>recorded\<close> counts the Reservation document a finished request has written,
  \<open>remaining\<close> the store operations a request has at most before it.
\<close>

definition the_event :: "bson_id \<Rightarrow> database \<Rightarrow> Event document option" where
  "the_event i db = find_one (\<lambda>d. doc_id d = i) (event db)"

definition pending :: "bson_id \<Rightarrow> request \<Rightarrow> bool" where
  "pending i r = (case r of Lookup \<Rightarrow> True | Update ev \<Rightarrow> doc_id ev = i | _ \<Rightarrow> False)"

definition won :: "request \<Rightarrow> bool" where
  "won r = (case r of Create \<Rightarrow> True | Finished (Inr x) \<Rightarrow> True | _ \<Rightarrow> False)"

definition lost :: "request \<Rightarrow> bool" where
  "lost r = (r = Finished (Inl (HTTPException 400 ''Not enough seats available'')) \<or>
             r = Finished (Inl (HTTPException 409 ''Seats no longer available'')))"

definition recorded :: "request \<Rightarrow> nat" where
  "recorded r = (case r of Finished (Inr x) \<Rightarrow> 1 | _ \<Rightarrow> 0)"

definition remaining :: "request \<Rightarrow> nat" where
  "remaining r = (case r of Lookup \<Rightarrow> 3 | Update ev \<Rightarrow> 2 | Create \<Rightarrow> 1 | Finished x \<Rightarrow> 0)"

text \<open>
  What holds at every moment while two requests for three tickets each run against an
  event \<open>i\<close> that had five seats left and a store that had \<open>n\<close> reservations: the five
  seats are untouched and neither request is past its update, or one request is past its
  update, two seats are left, and the other request is before its update or has failed.
\<close>

definition race_inv :: "bson_id \<Rightarrow> nat \<Rightarrow> database \<times> request \<times> request \<Rightarrow> bool" where
  "race_inv i n c =
     (case c of (db, p, q) \<Rightarrow>
        distinct (map doc_id (event db)) \<and>
        length (reservation db) = n + recorded p + recorded q \<and>
        (\<exists>e. the_event i db = Some e \<and>
           (seats_available (body e) = 5 \<and> pending i p \<and> pending i q \<or>
            seats_available (body e) = 2 \<and> won p \<and> (pending i q \<or> lost q) \<or>
            seats_available (body e) = 2 \<and> won q \<and> (pending i p \<or> lost p))))"

text \<open>
  Example data: an ObjectId parser that accepts the 24-digit lowercase hexadecimal
  strings, an environment whose generated identifiers start with a given 23 digits, an
  event with \<open>n\<close> seats left as the only document of the store, and a request for \<open>n\<close>
  tickets of the event named \<open>i\<close>.
\<close>

definition example_ObjectId :: "string \<Rightarrow> string option" where
  "example_ObjectId s =
     (if length s = 24 \<and> list_all (\<lambda>c. c \<in> set ''0123456789abcdef'') s then Some s else None)"

definition example_env :: "string \<Rightarrow> env" where
  "example_env prefix =
     \<lparr>utcnow = (\<lambda>k. \<lparr>year = 2024, month = 5, day = 17, hour = 18, minute = 0, second = k,
                      microsecond = 0\<rparr>),
      new_oid = (\<lambda>k. prefix @ [digit k]),
      ObjectId = example_ObjectId\<rparr>"

definition example_event :: "int \<Rightarrow> Event document" where
  "example_event n =
     \<lparr>doc_id = Oid ''65f0c0a1b2c3d4e5f6a7b8c9'',
      created_at = \<lparr>year = 2024, month = 5, day = 1, hour = 9, minute = 0, second = 0,
                    microsecond = 0\<rparr>,
      updated_at = \<lparr>year = 2024, month = 5, day = 1, hour = 9, minute = 0, second = 0,
                    microsecond = 0\<rparr>,
      body = \<lparr>title = ''Impro am Kanal'', description = ''Alles kann passieren'',
               genre = ''Impro'',
               date = \<lparr>year = 2024, month = 5, day = 17, hour = 20, minute = 0, second = 0,
                       microsecond = 0\<rparr>,
               duration_minutes = 75, price_eur = 15, seats_total = 60, seats_available = n,
               image_url = None\<rparr>\<rparr>"

definition example_db :: "int \<Rightarrow> database" where
  "example_db n =
     \<lparr>theater = [], ownerprofile = [], event = [example_event n], reservation = [],
      contactmessage = [], video = []\<rparr>"

definition request :: "string \<Rightarrow> int \<Rightarrow> Reservation" where
  "request i n =
     \<lparr>event_id = i, Reservation.name = ''Lena Weiss'',
      Reservation.email = ''lena@example.com'', tickets = n, note = None\<rparr>"

definition known_id :: string where
  "known_id = ''65f0c0a1b2c3d4e5f6a7b8c9''"

definition env_a :: env where
  "env_a = example_env ''65f0c0a1b2c3d4e5f6a7b8a''"

definition env_b :: env where
  "env_b = example_env ''65f0c0a1b2c3d4e5f6a7b8b''"

definition example_EmailStr :: "string \<Rightarrow> bool" where
  "example_EmailStr s = (CHR ''@'' \<in> set s)"

text \<open>
  More example data: a Video document for a month key, created on the \<open>n\<close>-th of January
  2024; a store that holds only the given videos; the empty store.
\<close>

definition example_video :: "string \<Rightarrow> nat \<Rightarrow> Video document" where
  "example_video key n =
     \<lparr>doc_id = Oid (''65f0c0a1b2c3d4e5f6a7b80'' @ [digit n]),
      created_at = \<lparr>year = 2024, month = 1, day = n, hour = 9, minute = 0, second = 0,
                    microsecond = 0\<rparr>,
      updated_at = \<lparr>year = 2024, month = 1, day = n, hour = 9, minute = 0, second = 0,
                    microsecond = 0\<rparr>,
      body = \<lparr>month_key = key, video_url = ''https://example.com/'' @ key @ ''.mp4'',
               caption = None\<rparr>\<rparr>"

definition video_db :: "Video document list \<Rightarrow> database" where
  "video_db vs =
     \<lparr>theater = [], ownerprofile = [], event = [], reservation = [], contactmessage = [],
      video = vs\<rparr>"

definition empty_db :: database where
  "empty_db =
     \<lparr>theater = [], ownerprofile = [], event = [], reservation = [], contactmessage = [],
      video = []\<rparr>"

text \<open>
  Two more stores for the reservation handler: one whose only event is stored under a
  string \<^verbatim>\<open>_id\<close> of 24 hexadecimal digits, and one with a second event before the
  example event.
\<close>

definition string_id_event :: "int \<Rightarrow> Event document" where
  "string_id_event n = (example_event n)\<lparr>doc_id := StrId known_id\<rparr>"

definition string_id_db :: "int \<Rightarrow> database" where
  "string_id_db n = (example_db n)\<lparr>event := [string_id_event n]\<rparr>"

definition other_event :: "Event document" where
  "other_event = (example_event 2)\<lparr>doc_id := Oid ''65f0c0a1b2c3d4e5f6a7b8c8''\<rparr>"

definition two_event_db :: database where
  "two_event_db = (example_db 5)\<lparr>event := [other_event, example_event 5]\<rparr>"

section \<open>Properties of the store operations\<close>

lemma find_one_and_update_None:
  "find_one_and_update flt upd ds = None \<longleftrightarrow> (\<forall>d\<in>set ds. \<not> flt d)"
  by (induction ds) (auto split: option.splits)

lemma find_one_and_update_Some:
  "find_one_and_update flt upd ds = Some (u, ds') \<Longrightarrow>
     \<exists>pre d post. ds = pre @ d # post \<and> (\<forall>x\<in>set pre. \<not> flt x) \<and> flt d \<and>
       u = upd d \<and> ds' = pre @ upd d # post"
proof (induction ds arbitrary: u ds')
  case Nil
  then show ?case by simp
next
  case (Cons a ds)
  show ?case
  proof (cases "flt a")
    case True
    with Cons.prems have "u = upd a" "ds' = upd a # ds" by auto
    with True show ?thesis by (intro exI [of _ "[]"] exI [of _ a] exI [of _ ds]) simp
  next
    case False
    with Cons.prems obtain r where r: "find_one_and_update flt upd ds = Some (u, r)" "ds' = a # r"
      by (auto split: option.splits)
    from Cons.IH [OF r(1)] obtain pre d post where
      "ds = pre @ d # post" "\<forall>x\<in>set pre. \<not> flt x" "flt d" "u = upd d" "r = pre @ upd d # post"
      by blast
    with False r(2) show ?thesis
      by (intro exI [of _ "a # pre"] exI [of _ d] exI [of _ post]) simp
  qed
qed

lemma find_one_and_update_first:
  "(\<forall>x\<in>set pre. \<not> flt x) \<Longrightarrow> flt d \<Longrightarrow>
     find_one_and_update flt upd (pre @ d # post) = Some (upd d, pre @ upd d # post)"
  by (induction pre) auto

lemma find_one_first:
  "(\<forall>x\<in>set pre. \<not> flt x) \<Longrightarrow> flt d \<Longrightarrow> find_one flt (pre @ d # post) = Some d"
  unfolding find_one_def by (induction pre) auto

lemma find_one_Some:
  "find_one flt ds = Some d \<Longrightarrow>
     \<exists>pre post. ds = pre @ d # post \<and> (\<forall>x\<in>set pre. \<not> flt x) \<and> flt d"
  unfolding find_one_def
proof (induction ds)
  case Nil
  then show ?case by simp
next
  case (Cons a ds)
  show ?case
  proof (cases "flt a")
    case True
    with Cons.prems have "a = d" by simp
    with True show ?thesis by (intro exI [of _ "[]"] exI [of _ ds]) simp
  next
    case False
    with Cons obtain pre post where "ds = pre @ d # post" "\<forall>x\<in>set pre. \<not> flt x" "flt d"
      by auto
    with False show ?thesis by (intro exI [of _ "a # pre"] exI [of _ post]) simp
  qed
qed

lemma find_one_None: "find_one flt ds = None \<longleftrightarrow> (\<forall>d\<in>set ds. \<not> flt d)"
  by (auto simp: find_one_def find_None_iff)

lemma find_event_wanted:
  "find_event env db res = find_one (\<lambda>d. doc_id d = wanted_id env res) (event db)"
  by (simp add: find_event_def wanted_id_def split: option.splits)

section \<open>Properties of the schemas\<close>

lemma Event_errors_Nil:
  "Event_errors e = [] \<longleftrightarrow>
     10 \<le> duration_minutes e \<and> duration_minutes e \<le> 300 \<and> 0 \<le> price_eur e \<and>
     1 \<le> seats_total e \<and> 0 \<le> seats_available e"
  by (auto simp: Event_errors_def)

text \<open>
  C6, as the specification has it: every Event the schema accepts has
  \<open>seats_available \<le> seats_total\<close>. The schema checks each field on its own and has no
  check across the two, so this fails: \<open>overbooked_event\<close> has one seat in total and five
  available, and is accepted.
\<close>

theorem Event_seats_bound_counterexample:
  "Event_init overbooked_event = Inr overbooked_event \<and>
   \<not> seats_available overbooked_event \<le> seats_total overbooked_event"
  by (simp add: Event_init_def Event_errors_Nil overbooked_event_def)

text \<open>
  C6, amended: every Event the schema accepts has \<open>seats_total \<ge> 1\<close> and
  \<open>seats_available \<ge> 0\<close> (and a duration of 10 to 300 minutes and a price of at least 0),
  and every Event within these bounds is accepted, whatever the relation of
  \<open>seats_available\<close> to \<open>seats_total\<close>.
\<close>

theorem Event_init_field_bounds:
  "(Event_init e = Inr e' \<longrightarrow>
      e' = e \<and> 1 \<le> seats_total e' \<and> 0 \<le> seats_available e' \<and>
      10 \<le> duration_minutes e' \<and> duration_minutes e' \<le> 300 \<and> 0 \<le> price_eur e') \<and>
   (10 \<le> duration_minutes e \<and> duration_minutes e \<le> 300 \<and> 0 \<le> price_eur e \<and>
      1 \<le> seats_total e \<and> 0 \<le> seats_available e \<longrightarrow> Event_init e = Inr e)"
  by (auto simp: Event_init_def Event_errors_Nil split: if_splits)

theorem Event_init_field_bounds_witness:
  "Event_init overbooked_event = Inr overbooked_event \<and>
   1 \<le> seats_total overbooked_event \<and> 0 \<le> seats_available overbooked_event \<and>
   10 \<le> duration_minutes overbooked_event \<and> duration_minutes overbooked_event \<le> 300 \<and>
   0 \<le> price_eur overbooked_event"
  using Event_init_field_bounds [of overbooked_event overbooked_event]
  by (simp add: overbooked_event_def)

text \<open>
  C9, as the specification has it: the Video schema rejects a \<open>month_key\<close> that is not
  of the form YYYY-MM. The field is declared as a plain string whose description names
  the format, so this fails: a Video whose month key is the text "next month" is
  accepted.
\<close>

theorem Video_month_key_counterexample:
  "Video_init \<lparr>month_key = ''next month'', video_url = ''https://example.com/v.mp4'',
               caption = None\<rparr>
     = Inr \<lparr>month_key = ''next month'', video_url = ''https://example.com/v.mp4'',
            caption = None\<rparr> \<and>
   \<not> month_key_format ''next month''"
  by (simp add: Video_init_def Video_errors_def month_key_format_def)

text \<open>
  C9, amended: the Video schema requires \<open>month_key\<close> to be a string and does not
  constrain its form: every Video is accepted as it is.
\<close>

theorem Video_init_accepts_all:
  "Video_init v = Inr v"
  by (simp add: Video_init_def Video_errors_def)

section \<open>Properties of the reservation handler\<close>

subsection \<open>The steps of a request\<close>

lemma decrement_seats_None:
  "decrement_seats now ev res ds = None \<longleftrightarrow>
     (\<forall>d\<in>set ds. \<not> (doc_id d = doc_id ev \<and> tickets res \<le> seats_available (body d)))"
  by (simp add: decrement_seats_def find_one_and_update_None)

lemma decrement_seats_Some:
  assumes "decrement_seats now ev res ds = Some (u, ds')"
  shows "\<exists>pre d post. ds = pre @ d # post \<and>
           (\<forall>x\<in>set pre. \<not> (doc_id x = doc_id ev \<and> tickets res \<le> seats_available (body x))) \<and>
           doc_id d = doc_id ev \<and> tickets res \<le> seats_available (body d) \<and>
           u = d\<lparr>body := (body d)\<lparr>seats_available := seats_available (body d) - tickets res\<rparr>,
                 updated_at := now\<rparr> \<and>
           ds' = pre @ u # post"
  using find_one_and_update_Some [OF assms [unfolded decrement_seats_def]]
  by (elim exE conjE) (simp, blast)

lemma decrement_seats_ok:
  assumes "decrement_seats now ev res ds = Some (u, ds')"
    and "0 \<le> tickets res" and "\<forall>d\<in>set ds. seats_ok d"
  shows "\<forall>d\<in>set ds'. seats_ok d"
proof -
  from decrement_seats_Some [OF assms(1)] obtain pre d post where
    *: "ds = pre @ d # post" "tickets res \<le> seats_available (body d)"
       "u = d\<lparr>body := (body d)\<lparr>seats_available := seats_available (body d) - tickets res\<rparr>,
                 updated_at := now\<rparr>"
       "ds' = pre @ u # post"
    by blast
  from *(1) assms(3) have "seats_ok d" by simp
  with *(2,3) assms(2) have "seats_ok u" by (simp add: seats_ok_def)
  with * assms(3) show ?thesis by auto
qed

lemma Reservation_errors_tickets:
  "Reservation_errors EmailStr res = [] \<Longrightarrow> 1 \<le> tickets res \<and> tickets res \<le> 10"
  by (auto simp: Reservation_errors_def split: if_splits)

lemma step_seats_ok:
  assumes "0 \<le> tickets res" and "\<forall>d\<in>set (event db). seats_ok d"
  shows "\<forall>d\<in>set (event (fst (step env res (db, p)))). seats_ok d"
proof (cases p)
  case Lookup
  with assms(2) show ?thesis by (simp split: option.splits)
next
  case (Update ev)
  show ?thesis
  proof (cases "decrement_seats (utcnow env 0) ev res (event db)")
    case None
    with Update assms(2) show ?thesis by simp
  next
    case (Some r)
    obtain u ds' where "r = (u, ds')" by (cases r)
    with Some decrement_seats_ok [OF _ assms] Update show ?thesis by simp
  qed
next
  case Create
  with assms(2) show ?thesis by (simp add: create_document_def)
next
  case (Finished r)
  with assms(2) show ?thesis by simp
qed

lemma create_reservation_fst:
  "fst (create_reservation env db res) = fst (step env res (step env res (step env res (db, Lookup))))"
  by (simp add: create_reservation_def create_document_def split: option.splits prod.splits)

text \<open>The handler is its three steps, one after the other.\<close>

lemma create_reservation_steps:
  "step env res (step env res (step env res (db, Lookup))) =
     (case create_reservation env db res of (db', r) \<Rightarrow> (db', Finished r))"
  by (simp add: create_reservation_def create_document_def split: option.splits prod.splits)

lemma reserve_all:
  assumes "find_event env db res = Some ev"
    and "seats_available (body ev) = tickets res"
    and "event db = pre @ ev # post" 
    and "\<forall>x\<in>set pre. doc_id x \<noteq> doc_id ev"
  shows "create_reservation env db res =
       (db\<lparr>event := pre @ ev\<lparr>body := (body ev)\<lparr>seats_available := 0\<rparr>,
                                updated_at := utcnow env 0\<rparr> # post,
           reservation := reservation db @
                 [\<lparr>doc_id = Oid (new_oid env 0), created_at = utcnow env 1,
                   updated_at = utcnow env 1, body = res\<rparr>]\<rparr>,
        Inr \<lparr>reservation_id = new_oid env 0, message = ''Reservation confirmed''\<rparr>)"
proof -
  have "decrement_seats (utcnow env 0) ev res (pre @ ev # post) =
          Some (ev\<lparr>body := (body ev)\<lparr>seats_available := 0\<rparr>, updated_at := utcnow env 0\<rparr>,
                pre @ ev\<lparr>body := (body ev)\<lparr>seats_available := 0\<rparr>,
                          updated_at := utcnow env 0\<rparr> # post)"
    unfolding decrement_seats_def
    using assms(2,4) by (subst find_one_and_update_first) simp_all
  with assms(1,2,3) show ?thesis
    by (simp add: create_reservation_def create_document_def)
qed


lemma find_event_split:
  assumes "find_event env db res = Some ev"
  shows "doc_id ev = wanted_id env res \<and>
         (\<exists>pre post. event db = pre @ ev # post \<and> (\<forall>x\<in>set pre. doc_id x \<noteq> doc_id ev))"
  using find_one_Some [OF assms [unfolded find_event_wanted]] by auto

lemma find_event_first:
  assumes "event db = pre @ ev # post" and "\<forall>x\<in>set pre. doc_id x \<noteq> doc_id ev"
    and "wanted_id env res = doc_id ev"
  shows "find_event env db res = Some ev"
  unfolding find_event_wanted assms(1)
  using assms(2,3) by (intro find_one_first) simp_all

lemma reserve_none_left:
  assumes "find_event env db res = Some ev" and "seats_available (body ev) < tickets res"
  shows "create_reservation env db res =
           (db, Inl (HTTPException 400 ''Not enough seats available''))"
  using assms by (simp add: create_reservation_def)

lemma find_event_the_event:
  "find_event env db res = the_event (wanted_id env res) db"
  by (simp add: find_event_wanted the_event_def)

lemma the_event_id: "the_event i db = Some e \<Longrightarrow> doc_id e = i"
  unfolding the_event_def by (auto dest: find_one_Some)

lemma the_event_split:
  assumes "the_event i db = Some e" and "distinct (map doc_id (event db))"
  shows "\<exists>pre post. event db = pre @ e # post \<and>
           (\<forall>x\<in>set pre. doc_id x \<noteq> i) \<and> (\<forall>x\<in>set post. doc_id x \<noteq> i) \<and> doc_id e = i"
proof -
  from find_one_Some [OF assms(1) [unfolded the_event_def]] obtain pre post where
    *: "event db = pre @ e # post" "\<forall>x\<in>set pre. doc_id x \<noteq> i" "doc_id e = i"
    by blast
  from assms(2) * have "\<forall>x\<in>set post. doc_id x \<noteq> i" by (auto simp: image_iff)
  with * show ?thesis by blast
qed

lemma step_Lookup_enough:
  assumes "the_event (wanted_id env res) db = Some e" and "tickets res \<le> seats_available (body e)"
  shows "step env res (db, Lookup) = (db, Update e)"
  using assms by (simp add: find_event_the_event)

lemma step_Lookup_short:
  assumes "the_event (wanted_id env res) db = Some e" and "seats_available (body e) < tickets res"
  shows "step env res (db, Lookup) =
           (db, Finished (Inl (HTTPException 400 ''Not enough seats available'')))"
  using assms by (simp add: find_event_the_event)

lemma step_Update_short:
  assumes "the_event i db = Some e" and "distinct (map doc_id (event db))"
    and "seats_available (body e) < tickets res" and "doc_id ev = i"
  shows "step env res (db, Update ev) =
           (db, Finished (Inl (HTTPException 409 ''Seats no longer available'')))"
proof -
  from the_event_split [OF assms(1,2)] obtain pre post where
    *: "event db = pre @ e # post" "\<forall>x\<in>set pre. doc_id x \<noteq> i" "\<forall>x\<in>set post. doc_id x \<noteq> i"
    by blast
  with assms(3,4) have "decrement_seats (utcnow env 0) ev res (event db) = None"
    by (auto simp: decrement_seats_None)
  then show ?thesis by simp
qed

lemma step_Update_enough:
  assumes "the_event i db = Some e" and "distinct (map doc_id (event db))"
    and "tickets res \<le> seats_available (body e)" and "doc_id ev = i"
  shows "\<exists>db' e'. step env res (db, Update ev) = (db', Create) \<and>
           the_event i db' = Some e' \<and>
           seats_available (body e') = seats_available (body e) - tickets res \<and>
           map doc_id (event db') = map doc_id (event db) \<and>
           reservation db' = reservation db"
proof -
  let ?e' = "e\<lparr>body := (body e)\<lparr>seats_available := seats_available (body e) + - tickets res\<rparr>,
               updated_at := utcnow env 0\<rparr>"
  from the_event_split [OF assms(1,2)] obtain pre post where
    *: "event db = pre @ e # post" "\<forall>x\<in>set pre. doc_id x \<noteq> i" "doc_id e = i"
    by blast
  have d: "decrement_seats (utcnow env 0) ev res (event db) = Some (?e', pre @ ?e' # post)"
    unfolding decrement_seats_def *(1)
    using *(2,3) assms(3,4) by (subst find_one_and_update_first) simp_all
  have "the_event i (db\<lparr>event := pre @ ?e' # post\<rparr>) = Some ?e'"
    unfolding the_event_def using *(2,3) by (simp add: find_one_first)
  with d * show ?thesis by simp
qed

lemma step_Create:
  "\<exists>db' x. step env res (db, Create) = (db', Finished (Inr x)) \<and> event db' = event db \<and>
     reservation db' = reservation db @
       [\<lparr>doc_id = Oid (new_oid env 0), created_at = utcnow env 1, updated_at = utcnow env 1,
         body = res\<rparr>]"
  by (simp add: create_document_def)

subsection \<open>Two requests in flight\<close>

lemma race_inv_swap: "race_inv i n (db, q, p) = race_inv i n (db, p, q)"
  unfolding race_inv_def by auto

lemma race_step:
  assumes inv: "race_inv i n (db, p, q)"
    and w: "wanted_id env res = i" and t: "tickets res = 3"
    and s: "step env res (db, p) = (db', p')"
  shows "race_inv i n (db', p', q)"
proof -
  from inv obtain e where
    d: "distinct (map doc_id (event db))" and
    n: "length (reservation db) = n + recorded p + recorded q" and
    e: "the_event i db = Some e" and
    ph: "seats_available (body e) = 5 \<and> pending i p \<and> pending i q \<or>
         seats_available (body e) = 2 \<and> won p \<and> (pending i q \<or> lost q) \<or>
         seats_available (body e) = 2 \<and> won q \<and> (pending i p \<or> lost p)"
    unfolding race_inv_def by auto
  show ?thesis
  proof (cases p)
    case Lookup
    from ph Lookup consider
      (free) "seats_available (body e) = 5" "pending i q" |
      (taken) "seats_available (body e) = 2" "won q"
      by (auto simp: won_def)
    then show ?thesis
    proof cases
      case free
      from e w have "the_event (wanted_id env res) db = Some e" by simp
      moreover from free t have "tickets res \<le> seats_available (body e)" by simp
      ultimately have "step env res (db, Lookup) = (db, Update e)"
        by (rule step_Lookup_enough)
      with s Lookup have "db' = db" "p' = Update e" by simp_all
      moreover have "pending i (Update e)" using the_event_id [OF e] by (simp add: pending_def)
      ultimately show ?thesis
        using d n e free Lookup unfolding race_inv_def by (auto simp: recorded_def)
    next
      case taken
      from e w have "the_event (wanted_id env res) db = Some e" by simp
      moreover from taken t have "seats_available (body e) < tickets res" by simp
      ultimately have "step env res (db, Lookup) =
          (db, Finished (Inl (HTTPException 400 ''Not enough seats available'')))"
        by (rule step_Lookup_short)
      with s Lookup have "db' = db"
        "p' = Finished (Inl (HTTPException 400 ''Not enough seats available''))" by simp_all
      then show ?thesis
        using d n e taken Lookup unfolding race_inv_def by (auto simp: recorded_def lost_def)
    qed
  next
    case (Update ev)
    with ph have ev: "doc_id ev = i" by (auto simp: won_def pending_def lost_def)
    from ph Update consider
      (free) "seats_available (body e) = 5" "pending i q" |
      (taken) "seats_available (body e) = 2" "won q"
      by (auto simp: won_def)
    then show ?thesis
    proof cases
      case free
      from step_Update_enough [OF e d _ ev, of res env] free t obtain db1 e1 where
        *: "step env res (db, Update ev) = (db1, Create)" "the_event i db1 = Some e1"
           "seats_available (body e1) = 2" "map doc_id (event db1) = map doc_id (event db)"
           "reservation db1 = reservation db"
        by auto
      with s Update have "db' = db1" "p' = Create" by simp_all
      then show ?thesis
        using d n * free Update unfolding race_inv_def by (auto simp: recorded_def won_def)
    next
      case taken
      with step_Update_short [OF e d _ ev, of res env] t have
        "step env res (db, Update ev) =
           (db, Finished (Inl (HTTPException 409 ''Seats no longer available'')))"
        by simp
      with s Update have "db' = db"
        "p' = Finished (Inl (HTTPException 409 ''Seats no longer available''))" by simp_all
      then show ?thesis
        using d n e taken Update unfolding race_inv_def by (auto simp: recorded_def lost_def)
    qed
  next
    case Create
    with ph have q: "seats_available (body e) = 2" "pending i q \<or> lost q"
      by (auto simp: pending_def lost_def)
    from step_Create [of env res db] obtain db1 x where
      *: "step env res (db, Create) = (db1, Finished (Inr x))" "event db1 = event db"
         "length (reservation db1) = Suc (length (reservation db))"
      by auto
    with s Create have "db' = db1" "p' = Finished (Inr x)" by simp_all
    moreover from e *(2) have "the_event i db1 = Some e" by (simp add: the_event_def)
    ultimately show ?thesis
      using d n * q Create unfolding race_inv_def by (auto simp: recorded_def won_def)
  next
    case (Finished r)
    with s have "db' = db" "p' = p" by simp_all
    with inv show ?thesis by simp
  qed
qed

lemma race_run:
  assumes "wanted_id (fst a) (snd a) = i" "tickets (snd a) = 3"
    and "wanted_id (fst b) (snd b) = i" "tickets (snd b) = 3"
  shows "race_inv i n c \<Longrightarrow> race_inv i n (run a b sched c)"
proof (induction sched arbitrary: c)
  case Nil
  then show ?case by simp
next
  case (Cons first sched)
  obtain db p q where c: "c = (db, p, q)" by (cases c)
  show ?case
  proof (cases first)
    case True
    obtain db' p' where s: "step (fst a) (snd a) (db, p) = (db', p')" by force
    from race_step [OF Cons.prems [unfolded c] assms(1,2) s]
    have "race_inv i n (db', p', q)" .
    from Cons.IH [OF this] True s c show ?thesis by simp
  next
    case False
    obtain db' q' where s: "step (fst b) (snd b) (db, q) = (db', q')" by force
    from Cons.prems have "race_inv i n (db, q, p)" unfolding c by (simp only: race_inv_swap)
    from race_step [OF this assms(3,4) s]
    have "race_inv i n (db', p, q')" by (simp only: race_inv_swap)
    from Cons.IH [OF this] False s c show ?thesis by simp
  qed
qed

lemma step_remaining: "step env res (db, p) = (db', p') \<Longrightarrow> remaining p' \<le> remaining p - 1"
  by (cases p) (auto simp: remaining_def create_document_def split: option.splits if_splits)

lemma run_remaining:
  "run a b sched (db, p, q) = (db', p', q') \<Longrightarrow>
     remaining p' \<le> remaining p - count_list sched True \<and>
     remaining q' \<le> remaining q - count_list sched False"
proof (induction sched arbitrary: db p q)
  case Nil
  then show ?case by simp
next
  case (Cons first sched)
  show ?case
  proof (cases first)
    case True
    obtain db1 p1 where s: "step (fst a) (snd a) (db, p) = (db1, p1)" by force
    with Cons.prems True have "run a b sched (db1, p1, q) = (db', p', q')" by simp
    from Cons.IH [OF this] step_remaining [OF s] True show ?thesis by (simp, linarith)
  next
    case False
    obtain db1 q1 where s: "step (fst b) (snd b) (db, q) = (db1, q1)" by force
    with Cons.prems False have "run a b sched (db1, p, q1) = (db', p', q')" by simp
    from Cons.IH [OF this] step_remaining [OF s] False show ?thesis by (simp, linarith)
  qed
qed

lemma remaining_0: "remaining r = 0 \<Longrightarrow> \<exists>x. r = Finished x"
  by (cases r) (simp_all add: remaining_def)

subsection \<open>The example data\<close>

lemma example_find_event:
  "find_event (example_env p) (example_db n) (request known_id k) = Some (example_event n)"
  by (simp add: example_ObjectId_def example_env_def example_event_def example_db_def
      request_def known_id_def find_event_def find_one_def)

lemma example_tickets: "tickets (request i n) = n"
  by (simp add: request_def)

lemma example_seats: "seats_available (body (example_event n)) = n"
  by (simp add: example_event_def)

lemma example_events: "event (example_db n) = [example_event n]"
  by (simp add: example_db_def)

lemma example_doc_id: "doc_id (example_event n) = Oid known_id"
  by (simp add: example_event_def known_id_def)

subsection \<open>The claims on reservations\<close>

text \<open>
  Reserving exactly the seats that are left, for an event the request names: the
  event's \<^verbatim>\<open>_id\<close> is the ObjectId that the request's \<open>event_id\<close> denotes, or it is the
  string \<open>event_id\<close> itself and that string is not the text of an ObjectId. The
  identifiers of the Event documents are distinct, as MongoDB keeps them. Then the
  reservation succeeds: the conditional update sets the event's \<open>seats_available\<close> to 0
  (and its \<open>updated_at\<close>), every other Event document stays as it is, one Reservation
  document holding the request is appended, and the generated identifier is returned. A
  later request for one ticket that names the same event fails with status 400 and
  changes nothing.
\<close>

lemma find_one_distinct:
  assumes "distinct (map doc_id ds)" and "e \<in> set ds"
  shows "find_one (\<lambda>d. doc_id d = doc_id e) ds = Some e"
  using assms unfolding find_one_def
  by (induction ds) (auto simp: image_iff)

lemma find_event_named:
  assumes "distinct (map doc_id (event db))" and "ev \<in> set (event db)"
    and "(\<exists>h. ObjectId env (event_id res) = Some h \<and> doc_id ev = Oid h) \<or>
         ObjectId env (event_id res) = None \<and> doc_id ev = StrId (event_id res)"
  shows "find_event env db res = Some ev"
proof -
  from assms(3) have "wanted_id env res = doc_id ev"
    by (auto simp: wanted_id_def)
  with find_one_distinct [OF assms(1,2)] show ?thesis
    by (simp add: find_event_wanted)
qed

lemma reserve_named_all_then_none_left:
  assumes "distinct (map doc_id (event db))" and "ev \<in> set (event db)"
    and "(\<exists>h. ObjectId env (event_id res) = Some h \<and> doc_id ev = Oid h) \<or>
         ObjectId env (event_id res) = None \<and> doc_id ev = StrId (event_id res)"
    and "seats_available (body ev) = tickets res"
    and "(\<exists>h. ObjectId env' (event_id res') = Some h \<and> doc_id ev = Oid h) \<or>
         ObjectId env' (event_id res') = None \<and> doc_id ev = StrId (event_id res')"
    and "tickets res' = 1"
  shows "\<exists>pre post ev1 db1.
     event db = pre @ ev # post \<and>
     ev1 = ev\<lparr>body := (body ev)\<lparr>seats_available := 0\<rparr>, updated_at := utcnow env 0\<rparr> \<and>
     db1 = db\<lparr>event := pre @ ev1 # post,
               reservation := reservation db @
                 [\<lparr>doc_id = Oid (new_oid env 0), created_at = utcnow env 1,
                   updated_at = utcnow env 1, body = res\<rparr>]\<rparr> \<and>
     create_reservation env db res =
       (db1, Inr \<lparr>reservation_id = new_oid env 0, message = ''Reservation confirmed''\<rparr>) \<and>
     create_reservation env' db1 res' =
        (db1, Inl (HTTPException 400 ''Not enough seats available''))"
proof -
  let ?ev1 = "ev\<lparr>body := (body ev)\<lparr>seats_available := 0\<rparr>, updated_at := utcnow env 0\<rparr>"
  have f: "find_event env db res = Some ev"
    by (rule find_event_named [OF assms(1,2,3)])
  from find_event_split [OF f] obtain pre post where
    ev: "event db = pre @ ev # post" "\<forall>x\<in>set pre. doc_id x \<noteq> doc_id ev"
    by blast
  let ?db1 = "db\<lparr>event := pre @ ?ev1 # post,
               reservation := reservation db @
                 [\<lparr>doc_id = Oid (new_oid env 0), created_at = utcnow env 1,
                   updated_at = utcnow env 1, body = res\<rparr>]\<rparr>"
  from assms(5) have w': "wanted_id env' res' = doc_id ?ev1"
    by (auto simp: wanted_id_def)
  have first: "create_reservation env db res =
       (?db1, Inr \<lparr>reservation_id = new_oid env 0, message = ''Reservation confirmed''\<rparr>)"
    by (rule reserve_all [OF f assms(4) ev])
  have found: "find_event env' ?db1 res' = Some ?ev1"
    using ev(2) by (intro find_event_first [OF _ _ w', of _ pre post]) simp_all
  have second: "create_reservation env' ?db1 res' =
        (?db1, Inl (HTTPException 400 ''Not enough seats available''))"
    using assms(6) by (intro reserve_none_left [OF found]) simp
  show ?thesis
  proof (intro exI conjI)
    show "event db = pre @ ev # post" by (rule ev(1))
    show "?ev1 = ?ev1" by (rule refl)
    show "?db1 = ?db1" by (rule refl)
    show "create_reservation env db res =
       (?db1, Inr \<lparr>reservation_id = new_oid env 0, message = ''Reservation confirmed''\<rparr>)"
      by (rule first)
    show "create_reservation env' ?db1 res' =
        (?db1, Inl (HTTPException 400 ''Not enough seats available''))"
      by (rule second)
  qed
qed

text \<open>On a store with two events, the request changes the event it names and no other.\<close>

lemma two_event_example:
  "create_reservation env_a two_event_db (request known_id 5) =
     (two_event_db
        \<lparr>event := [other_event,
                   (example_event 0)\<lparr>updated_at := utcnow env_a 0\<rparr>],
         reservation := [\<lparr>doc_id = Oid (new_oid env_a 0), created_at = utcnow env_a 1,
                          updated_at = utcnow env_a 1, body = request known_id 5\<rparr>]\<rparr>,
      Inr \<lparr>reservation_id = new_oid env_a 0, message = ''Reservation confirmed''\<rparr>)"
  by (simp add: two_event_db_def other_event_def example_ObjectId_def example_env_def
      example_event_def example_db_def request_def known_id_def env_a_def
      create_reservation_def find_event_def find_one_def decrement_seats_def
      create_document_def)

text \<open>
  When \<^verbatim>\<open>ObjectId\<close> accepts the \<open>event_id\<close>, only the lookup by ObjectId is made: a
  document stored under the same text as a string \<^verbatim>\<open>_id\<close> is not found.
\<close>

lemma reserve_parsable_id_not_found:
  assumes "ObjectId env (event_id res) = Some h" and "\<forall>d\<in>set (event db). doc_id d \<noteq> Oid h"
  shows "create_reservation env db res = (db, Inl (HTTPException 404 ''Event not found''))"
proof -
  from assms have "find_event env db res = None"
    by (simp add: find_event_def find_one_None)
  then show ?thesis by (simp add: create_reservation_def)
qed

text \<open>
  C1: for an Event document with \<open>seats_available = N\<close> and a valid request for exactly
  \<open>N\<close> tickets of it, the reservation succeeds, leaves \<open>seats_available = 0\<close>, records the
  reservation and returns its identifier, and a later request for one ticket fails for
  capacity. The handler does this for every event its lookup can reach
  (\<open>reserve_named_all_then_none_left\<close>), and not for an event stored under a string
  \<^verbatim>\<open>_id\<close> of 24 hexadecimal digits. The comment of lines 80 and 81 allows string
  identifiers and says that the string and the ObjectId are both tried; the lookup by
  string of line 87 is made only when \<^verbatim>\<open>ObjectId\<close> raises, and the one of line 79 is not
  used. Here the event has five seats left and a string \<^verbatim>\<open>_id\<close>, and the valid request
  for five tickets names exactly this \<^verbatim>\<open>_id\<close>: the handler answers 404 and the store is
  unchanged.
\<close>

theorem reserve_string_id_event_not_found:
  "doc_id (string_id_event 5) = StrId (event_id (request known_id 5)) \<and>
   seats_available (body (string_id_event 5)) = tickets (request known_id 5) \<and>
   Reservation_errors example_EmailStr (request known_id 5) = [] \<and>
   event (string_id_db 5) = [string_id_event 5] \<and>
   create_reservation env_a (string_id_db 5) (request known_id 5) =
     (string_id_db 5, Inl (HTTPException 404 ''Event not found''))"
  by (simp add: string_id_db_def string_id_event_def example_ObjectId_def example_env_def
      example_event_def example_db_def request_def known_id_def env_a_def
      example_EmailStr_def Reservation_errors_def
      create_reservation_def find_event_def find_one_def)

text \<open>
  C2: a reservation attempt with a valid request keeps \<open>0 \<le> seats_available \<le> seats_total\<close>
  for every Event document: if it holds for all events before the attempt, it holds for
  all events after it, whatever the outcome, and after each single store operation of
  an attempt, wherever the attempt stands and whatever other requests did to the store
  in between.
\<close>

theorem seats_invariant_preserved:
  assumes "Reservation_errors EmailStr res = []" and "\<forall>d\<in>set (event db). seats_ok d"
  shows "(\<forall>d\<in>set (event (fst (create_reservation env db res))). seats_ok d) \<and>
         (\<forall>p. \<forall>d\<in>set (event (fst (step env res (db, p)))). seats_ok d)"
proof -
  from assms(1) have t: "0 \<le> tickets res" using Reservation_errors_tickets by fastforce
  have s: "\<forall>d\<in>set (event (fst (step env res c))). seats_ok d"
    if "\<forall>d\<in>set (event (fst c)). seats_ok d" for c
    using step_seats_ok [OF t, of "fst c" env "snd c"] that by simp
  have "\<forall>d\<in>set (event (fst (step env res (db, Lookup)))). seats_ok d"
    using s [of "(db, Lookup)"] assms(2) by simp
  then have "\<forall>d\<in>set (event (fst (step env res (step env res (db, Lookup))))). seats_ok d"
    by (rule s)
  then have "\<forall>d\<in>set (event (fst (step env res (step env res (step env res (db, Lookup)))))).
               seats_ok d"
    by (rule s)
  then have "\<forall>d\<in>set (event (fst (create_reservation env db res))). seats_ok d"
    by (simp only: create_reservation_fst)
  moreover have "\<forall>p. \<forall>d\<in>set (event (fst (step env res (db, p)))). seats_ok d"
    using step_seats_ok [OF t assms(2)] by blast
  ultimately show ?thesis by blast
qed

theorem seats_invariant_preserved_witness:
  "Reservation_errors example_EmailStr (request known_id 3) = [] \<and>
   list_all seats_ok (event (example_db 5)) \<and>
   list_all seats_ok (event (fst (create_reservation env_a (example_db 5) (request known_id 3))))"
proof -
  have h1: "Reservation_errors example_EmailStr (request known_id 3) = []"
    by (simp add: Reservation_errors_def example_EmailStr_def request_def)
  have h2: "\<forall>d\<in>set (event (example_db 5)). seats_ok d"
    by (simp add: example_events seats_ok_def example_event_def)
  from seats_invariant_preserved [OF h1 h2, of env_a] h1 h2 show ?thesis
    unfolding list_all_iff by blast
qed

text \<open>
  C4: the two capacity failures. When the event read by the lookup has fewer seats than
  the request asks for, the request ends with status 400 at the lookup, before any
  update, and the store is unchanged; otherwise it goes on to the conditional update
  with the event it read. When the conditional update then matches no document of the
  store as it is at that moment, the request ends with status 409 and the store is
  unchanged. In both cases no Reservation document is written.
\<close>

theorem capacity_failures_distinguished:
  "(find_event env db res = Some ev \<and> seats_available (body ev) < tickets res \<longrightarrow>
      step env res (db, Lookup) =
        (db, Finished (Inl (HTTPException 400 ''Not enough seats available''))) \<and>
      create_reservation env db res =
        (db, Inl (HTTPException 400 ''Not enough seats available''))) \<and>
   (find_event env db res = Some ev \<and> \<not> seats_available (body ev) < tickets res \<longrightarrow>
      step env res (db, Lookup) = (db, Update ev)) \<and>
   ((\<forall>d\<in>set (event db'). \<not> (doc_id d = doc_id ev \<and> tickets res \<le> seats_available (body d))) \<longrightarrow>
      step env res (db', Update ev) =
        (db', Finished (Inl (HTTPException 409 ''Seats no longer available''))))"
proof (intro conjI impI)
  assume "find_event env db res = Some ev \<and> seats_available (body ev) < tickets res"
  then show "step env res (db, Lookup) =
        (db, Finished (Inl (HTTPException 400 ''Not enough seats available'')))"
    and "create_reservation env db res =
        (db, Inl (HTTPException 400 ''Not enough seats available''))"
    by (simp_all add: create_reservation_def)
next
  assume "find_event env db res = Some ev \<and> \<not> seats_available (body ev) < tickets res"
  then show "step env res (db, Lookup) = (db, Update ev)" by simp
next
  assume "\<forall>d\<in>set (event db'). \<not> (doc_id d = doc_id ev \<and> tickets res \<le> seats_available (body d))"
  then have "decrement_seats (utcnow env 0) ev res (event db') = None"
    by (simp only: decrement_seats_None)
  then show "step env res (db', Update ev) =
        (db', Finished (Inl (HTTPException 409 ''Seats no longer available'')))"
    by simp
qed

theorem capacity_failures_distinguished_witness:
  "find_event env_a (example_db 2) (request known_id 3) = Some (example_event 2) \<and>
   seats_available (body (example_event 2)) < tickets (request known_id 3) \<and>
   step env_a (request known_id 3) (example_db 2, Lookup) =
     (example_db 2, Finished (Inl (HTTPException 400 ''Not enough seats available''))) \<and>
   find_event env_a (example_db 5) (request known_id 3) = Some (example_event 5) \<and>
   \<not> seats_available (body (example_event 5)) < tickets (request known_id 3) \<and>
   step env_a (request known_id 3) (example_db 5, Lookup) =
     (example_db 5, Update (example_event 5)) \<and>
   list_all
     (\<lambda>d. \<not> (doc_id d = doc_id (example_event 5) \<and>
              tickets (request known_id 3) \<le> seats_available (body d)))
     (event (example_db 2)) \<and>
   step env_a (request known_id 3) (example_db 2, Update (example_event 5)) =
     (example_db 2, Finished (Inl (HTTPException 409 ''Seats no longer available'')))"
proof -
  have f2: "find_event env_a (example_db 2) (request known_id 3) = Some (example_event 2)"
    and f5: "find_event env_a (example_db 5) (request known_id 3) = Some (example_event 5)"
    unfolding env_a_def by (rule example_find_event)+
  have s2: "seats_available (body (example_event 2)) < tickets (request known_id 3)"
    and s5: "\<not> seats_available (body (example_event 5)) < tickets (request known_id 3)"
    by (simp_all add: example_tickets example_seats)
  have n: "\<forall>d\<in>set (event (example_db 2)).
      \<not> (doc_id d = doc_id (example_event 5) \<and>
         tickets (request known_id 3) \<le> seats_available (body d))"
    by (simp add: example_events example_tickets example_seats)
  from capacity_failures_distinguished
         [of env_a "example_db 2" "request known_id 3" "example_event 2"]
       f2 s2
  have a: "step env_a (request known_id 3) (example_db 2, Lookup) =
     (example_db 2, Finished (Inl (HTTPException 400 ''Not enough seats available'')))"
    by blast
  from capacity_failures_distinguished
         [of env_a "example_db 5" "request known_id 3" "example_event 5"]
       f5 s5
  have b: "step env_a (request known_id 3) (example_db 5, Lookup) =
     (example_db 5, Update (example_event 5))"
    by blast
  from capacity_failures_distinguished
         [of env_a "example_db 2" "request known_id 3" "example_event 5" "example_db 2"]
       n
  have c: "step env_a (request known_id 3) (example_db 2, Update (example_event 5)) =
     (example_db 2, Finished (Inl (HTTPException 409 ''Seats no longer available'')))"
    by blast
  from f2 s2 a f5 s5 b n c show ?thesis unfolding list_all_iff by blast
qed

text \<open>
  C5: when no Event document has the requested \<open>event_id\<close> as its \<^verbatim>\<open>_id\<close>, neither as a
  string nor as the ObjectId the string denotes, the reservation fails with status 404
  and the store is returned as it was: no update is attempted and no document is
  written in any collection.
\<close>

theorem reserve_unknown_event_not_found:
  assumes "\<forall>d\<in>set (event db). doc_id d \<noteq> StrId (event_id res) \<and>
             (\<forall>h. ObjectId env (event_id res) = Some h \<longrightarrow> doc_id d \<noteq> Oid h)"
  shows "create_reservation env db res = (db, Inl (HTTPException 404 ''Event not found'')) \<and>
         step env res (db, Lookup) = (db, Finished (Inl (HTTPException 404 ''Event not found'')))"
proof -
  from assms have "\<forall>d\<in>set (event db). doc_id d \<noteq> wanted_id env res"
    by (auto simp: wanted_id_def split: option.splits)
  then have "find_event env db res = None"
    by (simp add: find_event_wanted find_one_None)
  then show ?thesis by (simp add: create_reservation_def)
qed

theorem reserve_unknown_event_not_found_witness:
  "list_all
     (\<lambda>d. doc_id d \<noteq> StrId (event_id (request ''000000000000000000000000'' 2)) \<and>
          (\<forall>h. ObjectId env_a (event_id (request ''000000000000000000000000'' 2)) = Some h \<longrightarrow>
               doc_id d \<noteq> Oid h))
     (event (example_db 5)) \<and>
   create_reservation env_a (example_db 5) (request ''000000000000000000000000'' 2) =
     (example_db 5, Inl (HTTPException 404 ''Event not found''))"
proof -
  have h: "\<forall>d\<in>set (event (example_db 5)).
      doc_id d \<noteq> StrId (event_id (request ''000000000000000000000000'' 2)) \<and>
      (\<forall>h. ObjectId env_a (event_id (request ''000000000000000000000000'' 2)) = Some h \<longrightarrow>
           doc_id d \<noteq> Oid h)"
    by (simp add: example_events example_doc_id known_id_def request_def env_a_def
        example_env_def example_ObjectId_def)
  from reserve_unknown_event_not_found [OF h] h show ?thesis unfolding list_all_iff by blast
qed

subsection \<open>The claim on two concurrent requests\<close>

lemma example_distinct: "distinct (map doc_id (event (example_db n)))"
  by (simp add: example_events)

text \<open>
  With both lookups before both updates, the loser of the race fails with status 409.
\<close>

lemma race_conflict_example:
  "snd (run (env_a, request known_id 3) (env_b, request known_id 3)
          [True, False, True, False, True] (example_db 5, Lookup, Lookup)) =
     (Finished (Inr \<lparr>reservation_id = new_oid env_a 0, message = ''Reservation confirmed''\<rparr>),
      Finished (Inl (HTTPException 409 ''Seats no longer available'')))"
  by (simp add: example_ObjectId_def example_env_def example_event_def example_db_def
      request_def known_id_def env_a_def env_b_def find_event_def find_one_def
      decrement_seats_def create_document_def)

text \<open>
  C3, as the specification has it: of two concurrent requests for three tickets of an
  event with five seats left, one succeeds and the other fails with Conflict (409).
  This fails: when the second request's lookup falls between the first request's update
  and its \<^verbatim>\<open>create_document\<close>, so that the second request runs entirely while the first
  is in progress, the second request reads two seats and fails with status 400.
\<close>

theorem race_loser_conflict_counterexample:
  "fst (snd (run (env_a, request known_id 3) (env_b, request known_id 3)
               [True, True, False, True] (example_db 5, Lookup, Lookup))) =
     Finished (Inr \<lparr>reservation_id = new_oid env_a 0, message = ''Reservation confirmed''\<rparr>) \<and>
   snd (snd (run (env_a, request known_id 3) (env_b, request known_id 3)
               [True, True, False, True] (example_db 5, Lookup, Lookup))) =
     Finished (Inl (HTTPException 400 ''Not enough seats available'')) \<and>
   snd (snd (run (env_a, request known_id 3) (env_b, request known_id 3)
               [True, True, False, True] (example_db 5, Lookup, Lookup))) \<noteq>
     Finished (Inl (HTTPException 409 ''Seats no longer available''))"
  by (simp add: example_ObjectId_def example_env_def example_event_def example_db_def
      request_def known_id_def env_a_def env_b_def find_event_def find_one_def
      decrement_seats_def create_document_def)

text \<open>
  C3, amended: take a store whose Event documents have distinct identifiers, an event
  with five seats left, and two requests for three tickets of it. However their store
  operations interleave, once each request has had its three turns both have finished,
  exactly one has succeeded, the event has two seats left, exactly one Reservation
  document has been added, and the other request has failed with status 409 or with
  status 400. Each store operation is taken as indivisible.
\<close>

theorem race_exactly_one_winner:
  assumes "distinct (map doc_id (event db))"
    and "find_event envA db resA = Some ev" and "find_event envB db resB = Some ev"
    and "seats_available (body ev) = 5" and "tickets resA = 3" and "tickets resB = 3"
    and "3 \<le> count_list sched True" and "3 \<le> count_list sched False"
  shows "\<exists>db' oa ob e.
     run (envA, resA) (envB, resB) sched (db, Lookup, Lookup) = (db', Finished oa, Finished ob) \<and>
     find_event envA db' resA = Some e \<and> seats_available (body e) = 2 \<and>
     length (reservation db') = length (reservation db) + 1 \<and>
     ((\<exists>r. oa = Inr r) \<and>
        (ob = Inl (HTTPException 409 ''Seats no longer available'') \<or>
         ob = Inl (HTTPException 400 ''Not enough seats available'')) \<or>
      (\<exists>r. ob = Inr r) \<and>
        (oa = Inl (HTTPException 409 ''Seats no longer available'') \<or>
         oa = Inl (HTTPException 400 ''Not enough seats available'')))"
proof -
  let ?i = "doc_id ev"
  let ?n = "length (reservation db)"
  from find_event_split [OF assms(2)] have wa: "wanted_id envA resA = ?i" by simp
  from find_event_split [OF assms(3)] have wb: "wanted_id envB resB = ?i" by simp
  from assms(2) wa have "the_event ?i db = Some ev" by (simp add: find_event_the_event)
  with assms(1,4) have "race_inv ?i ?n (db, Lookup, Lookup)"
    by (simp add: race_inv_def recorded_def pending_def)
  then have inv: "race_inv ?i ?n (run (envA, resA) (envB, resB) sched (db, Lookup, Lookup))"
    using wa wb assms(5,6) by (intro race_run) simp_all
  obtain db' p q where r:
    "run (envA, resA) (envB, resB) sched (db, Lookup, Lookup) = (db', p, q)"
    by (cases "run (envA, resA) (envB, resB) sched (db, Lookup, Lookup)")
  from run_remaining [OF r] assms(7,8) have z: "remaining p = 0" "remaining q = 0"
    by (simp_all add: remaining_def)
  from remaining_0 [OF z(1)] obtain oa where fa: "p = Finished oa" by blast
  from remaining_0 [OF z(2)] obtain ob where fb: "q = Finished ob" by blast
  note f = fa fb
  from inv [unfolded r f] obtain e where
    n: "length (reservation db') = ?n + recorded (Finished oa) + recorded (Finished ob)" and
    e: "the_event ?i db' = Some e" and
    ph: "seats_available (body e) = 5 \<and> pending ?i (Finished oa) \<and> pending ?i (Finished ob) \<or>
         seats_available (body e) = 2 \<and> won (Finished oa) \<and>
           (pending ?i (Finished ob) \<or> lost (Finished ob)) \<or>
         seats_available (body e) = 2 \<and> won (Finished ob) \<and>
           (pending ?i (Finished oa) \<or> lost (Finished oa))"
    unfolding race_inv_def by auto
  from ph have two: "seats_available (body e) = 2" by (auto simp: pending_def)
  from ph have out:
    "(\<exists>r. oa = Inr r) \<and>
        (ob = Inl (HTTPException 409 ''Seats no longer available'') \<or>
         ob = Inl (HTTPException 400 ''Not enough seats available'')) \<or>
      (\<exists>r. ob = Inr r) \<and>
        (oa = Inl (HTTPException 409 ''Seats no longer available'') \<or>
         oa = Inl (HTTPException 400 ''Not enough seats available''))"
    by (auto simp: pending_def won_def lost_def split: sum.splits)
  with n have len: "length (reservation db') = ?n + 1"
    by (auto simp: recorded_def)
  from e wa have found: "find_event envA db' resA = Some e" by (simp add: find_event_the_event)
  from r f found two len out show ?thesis by blast
qed

theorem race_exactly_one_winner_witness:
  "distinct (map doc_id (event (example_db 5))) \<and>
   find_event env_a (example_db 5) (request known_id 3) = Some (example_event 5) \<and>
   find_event env_b (example_db 5) (request known_id 3) = Some (example_event 5) \<and>
   seats_available (body (example_event 5)) = 5 \<and>
   tickets (request known_id 3) = 3 \<and>
   3 \<le> count_list [True, False, True, False, True, False] True \<and>
   3 \<le> count_list [True, False, True, False, True, False] False \<and>
   length (reservation (fst (run (env_a, request known_id 3) (env_b, request known_id 3)
     [True, False, True, False, True, False] (example_db 5, Lookup, Lookup)))) = 1"
proof -
  have d: "distinct (map doc_id (event (example_db 5)))"
    by (rule example_distinct)
  have fa: "find_event env_a (example_db 5) (request known_id 3) = Some (example_event 5)"
    and fb: "find_event env_b (example_db 5) (request known_id 3) = Some (example_event 5)"
    unfolding env_a_def env_b_def by (rule example_find_event)+
  have s: "seats_available (body (example_event 5)) = 5"
    by (rule example_seats)
  have t: "tickets (request known_id 3) = 3"
    by (rule example_tickets)
  have ca: "3 \<le> count_list [True, False, True, False, True, False] True"
    and cb: "3 \<le> count_list [True, False, True, False, True, False] False"
    by simp_all
  from race_exactly_one_winner [OF d fa fb s t t ca cb] obtain db' oa ob where
    "run (env_a, request known_id 3) (env_b, request known_id 3)
       [True, False, True, False, True, False] (example_db 5, Lookup, Lookup) =
       (db', Finished oa, Finished ob)"
    "length (reservation db') = length (reservation (example_db 5)) + 1"
    by blast
  then have "length (reservation (fst (run (env_a, request known_id 3)
      (env_b, request known_id 3) [True, False, True, False, True, False]
      (example_db 5, Lookup, Lookup)))) = 1"
    by (simp add: example_db_def)
  with d fa fb s t ca cb show ?thesis by blast
qed

section \<open>Properties of the query handlers\<close>

subsection \<open>The current video\<close>

lemma find_one_sort_desc_None: "find_one_sort_desc key ds = None \<longleftrightarrow> ds = []"
  by (induction ds) (auto split: option.splits)

lemma find_one_sort_desc_Some:
  "find_one_sort_desc key ds = Some d \<Longrightarrow> d \<in> set ds \<and> (\<forall>x\<in>set ds. key x \<le> key d)"
proof (induction ds arbitrary: d)
  case Nil
  then show ?case by simp
next
  case (Cons a ds)
  show ?case
  proof (cases "find_one_sort_desc key ds")
    case None
    then have "ds = []" by (simp add: find_one_sort_desc_None)
    with Cons.prems show ?thesis by simp
  next
    case (Some m)
    from Cons.IH [OF Some] have m: "m \<in> set ds" "\<forall>x\<in>set ds. key x \<le> key m" by simp_all
    show ?thesis
    proof (cases "key a < key m")
      case True
      with Some Cons.prems have "d = m" by simp
      with m True show ?thesis by auto
    next
      case False
      with Some Cons.prems have "d = a" by simp
      with m False show ?thesis by (auto intro: order_trans)
    qed
  qed
qed

lemma Video_kwargs_doc: "Video_kwargs (dict_without k (doc_items d)) = Inr (body d)"
  by (simp add: Video_kwargs_def dict_without_def doc_items_def Video_init_def Video_errors_def)

lemma current_video_exact:
  assumes "find_one (\<lambda>d. month_key (body d) = strftime_Ym (utcnow env 0)) (video db) = Some d"
  shows "current_video env db = Inr (Some (body d))"
  using assms by (simp add: current_video_def Video_kwargs_doc)

lemma current_video_fallback:
  assumes "find_one (\<lambda>d. month_key (body d) = strftime_Ym (utcnow env 0)) (video db) = None"
  shows "current_video env db =
           (case find_one_sort_desc (\<lambda>d. dt_key (created_at d)) (video db) of
              None \<Rightarrow> Inr None | Some d \<Rightarrow> Inr (Some (body d)))"
  using assms by (simp add: current_video_def Video_kwargs_doc split: option.splits)

lemma example_key: "strftime_Ym (utcnow env_a k) = ''2024-05''"
  by (simp add: strftime_Ym_def digit_def env_a_def example_env_def)

lemma example_video_key: "month_key (body (example_video key n)) = key"
  by (simp add: example_video_def)

lemma example_videos: "video (video_db vs) = vs"
  by (simp add: video_db_def)

text \<open>
  C7: the current-video lookup. When some Video document has the current month's key
  as its \<open>month_key\<close>, the handler returns a document with that key. When none has and
  the collection is not empty, it returns a document whose creation timestamp is
  greatest; with a single document from an earlier month that is this document. When
  the collection is empty it returns absent, and not an error.
\<close>

theorem current_video_lookup:
  "((\<exists>d\<in>set (video db). month_key (body d) = strftime_Ym (utcnow env 0)) \<longrightarrow>
      (\<exists>d\<in>set (video db). month_key (body d) = strftime_Ym (utcnow env 0) \<and>
         current_video env db = Inr (Some (body d)))) \<and>
   ((\<forall>d\<in>set (video db). month_key (body d) \<noteq> strftime_Ym (utcnow env 0)) \<and> video db \<noteq> [] \<longrightarrow>
      (\<exists>d\<in>set (video db). current_video env db = Inr (Some (body d)) \<and>
         (\<forall>x\<in>set (video db). dt_key (created_at x) \<le> dt_key (created_at d)))) \<and>
   (video db = [] \<longrightarrow> current_video env db = Inr None)"
proof (intro conjI impI)
  let ?key = "strftime_Ym (utcnow env 0)"
  assume "\<exists>d\<in>set (video db). month_key (body d) = ?key"
  then have "find_one (\<lambda>d. month_key (body d) = ?key) (video db) \<noteq> None"
    by (simp add: find_one_None)
  then obtain d where d: "find_one (\<lambda>d. month_key (body d) = ?key) (video db) = Some d"
    by blast
  from find_one_Some [OF d] have "d \<in> set (video db)" "month_key (body d) = ?key"
    by auto
  with current_video_exact [OF d]
  show "\<exists>d\<in>set (video db). month_key (body d) = ?key \<and>
          current_video env db = Inr (Some (body d))"
    by blast
next
  let ?key = "strftime_Ym (utcnow env 0)"
  assume a: "(\<forall>d\<in>set (video db). month_key (body d) \<noteq> ?key) \<and> video db \<noteq> []"
  then have n: "find_one (\<lambda>d. month_key (body d) = ?key) (video db) = None"
    by (simp add: find_one_None)
  from a obtain d where d: "find_one_sort_desc (\<lambda>d. dt_key (created_at d)) (video db) = Some d"
    using find_one_sort_desc_None [of "\<lambda>d. dt_key (created_at d)" "video db"] by fastforce
  from current_video_fallback [OF n] d have "current_video env db = Inr (Some (body d))"
    by simp
  with find_one_sort_desc_Some [OF d]
  show "\<exists>d\<in>set (video db). current_video env db = Inr (Some (body d)) \<and>
          (\<forall>x\<in>set (video db). dt_key (created_at x) \<le> dt_key (created_at d))"
    by blast
next
  assume "video db = []"
  then show "current_video env db = Inr None"
    by (simp add: current_video_def find_one_def)
qed

theorem current_video_lookup_witness:
  "current_video env_a
     (video_db [example_video ''2024-04'' 1, example_video ''2024-05'' 2,
                example_video ''2024-06'' 3]) =
     Inr (Some (body (example_video ''2024-05'' 2))) \<and>
   current_video env_a (video_db [example_video ''2024-04'' 2, example_video ''2024-03'' 1]) =
     Inr (Some (body (example_video ''2024-04'' 2))) \<and>
   current_video env_a (video_db []) = Inr None"
proof -
  from current_video_lookup [of "video_db [example_video ''2024-04'' 1, example_video ''2024-05'' 2,
                example_video ''2024-06'' 3]" env_a]
  have a: "current_video env_a
     (video_db [example_video ''2024-04'' 1, example_video ''2024-05'' 2,
                example_video ''2024-06'' 3]) =
     Inr (Some (body (example_video ''2024-05'' 2)))"
    by (simp add: example_key example_videos example_video_key)
  have le: "\<not> dt_key (created_at (example_video ''2024-04'' 2)) \<le>
              dt_key (created_at (example_video ''2024-03'' 1))"
    by (simp add: example_video_def dt_key_def)
  from current_video_lookup [of "video_db [example_video ''2024-04'' 2, example_video ''2024-03'' 1]" env_a]
  have b: "current_video env_a
      (video_db [example_video ''2024-04'' 2, example_video ''2024-03'' 1]) =
     Inr (Some (body (example_video ''2024-04'' 2)))"
    using le by (simp add: example_key example_videos example_video_key)
  from current_video_lookup [of "video_db []" env_a]
  have c: "current_video env_a (video_db []) = Inr None"
    by (simp add: example_videos)
  from a b c show ?thesis by blast
qed

subsection \<open>The listing of events\<close>

lemma insort_key_map:
  "insort_key f (g x) (map g xs) = map g (insort_key (\<lambda>y. f (g y)) x xs)"
  by (induction xs) simp_all

lemma find_sort_asc_map:
  "find_sort_asc f (map g xs) = map g (find_sort_asc (\<lambda>y. f (g y)) xs)"
  unfolding find_sort_asc_def by (induction xs) (simp_all add: insort_key_map)

lemma Event_kwargs_doc: "Event_kwargs (dict_set k v (doc_items d)) = Event_init (body d)"
  by (simp add: Event_kwargs_def dict_set_def doc_items_def)

lemma list_events_eq:
  "list_events db =
     comprehension (map (\<lambda>d. Event_init (body d))
       (find_sort_asc (\<lambda>d. dt_key (date (body d))) (event db)))"
  by (simp add: list_events_def Event_kwargs_doc)

lemma comprehension_Event_init:
  "comprehension (map (\<lambda>d. Event_init (body d)) ds) = Inr es \<Longrightarrow> es = map body ds"
proof (induction ds arbitrary: es)
  case Nil
  then show ?case by simp
next
  case (Cons d ds)
  show ?case
  proof (cases "Event_errors (body d) = []")
    case True
    with Cons.prems obtain es' where
      "comprehension (map (\<lambda>d. Event_init (body d)) ds) = Inr es'" "es = body d # es'"
      by (auto simp: Event_init_def split: sum.splits)
    with Cons.IH show ?thesis by simp
  next
    case False
    with Cons.prems show ?thesis by (simp add: Event_init_def)
  qed
qed

text \<open>
  C10: the items of the event listing carry no identifier. The handler adds the
  document's \<^verbatim>\<open>_id\<close> under the key \<open>id\<close>, the Event model declares no such field and
  drops it: replacing the identifiers of the stored documents by any others leaves the
  response as it is, and each item of a response is the declared fields of a stored
  document and nothing else.
\<close>

theorem list_events_drops_ids:
  "list_events (db\<lparr>event := map (\<lambda>d. d\<lparr>doc_id := f d\<rparr>) (event db)\<rparr>) = list_events db \<and>
   (list_events db = Inr es \<longrightarrow>
      es = map body (find_sort_asc (\<lambda>d. dt_key (date (body d))) (event db)))"
proof
  show "list_events (db\<lparr>event := map (\<lambda>d. d\<lparr>doc_id := f d\<rparr>) (event db)\<rparr>) = list_events db"
    by (simp add: list_events_eq find_sort_asc_map comp_def)
  show "list_events db = Inr es \<longrightarrow>
      es = map body (find_sort_asc (\<lambda>d. dt_key (date (body d))) (event db))"
    unfolding list_events_eq by (blast dest: comprehension_Event_init)
qed

theorem list_events_drops_ids_witness:
  "list_events (example_db 5) = Inr [body (example_event 5)] \<and>
   [body (example_event 5)] =
     map body (find_sort_asc (\<lambda>d. dt_key (date (body d))) (event (example_db 5)))"
proof -
  have h: "list_events (example_db 5) = Inr [body (example_event 5)]"
    by (simp add: list_events_eq example_events find_sort_asc_def Event_init_def
        Event_errors_Nil example_event_def)
  from list_events_drops_ids [where db = "example_db 5" and es = "[body (example_event 5)]"] h
  show ?thesis by blast
qed

section \<open>Properties of the seed handler\<close>

lemma demo_events_valid: "\<forall>e\<in>set (demo_events t). Event_errors e = []"
  by (simp add: demo_events_def Event_errors_Nil)

lemma create_documents_body:
  "map body (create_documents env kt ko xs docs) = map body docs @ xs"
  by (induction xs arbitrary: kt ko docs) (simp_all add: create_document_def)

lemma create_documents_length:
  "length (create_documents env kt ko xs docs) = length docs + length xs"
  using arg_cong [OF create_documents_body [of env kt ko xs docs], of length] by simp

lemma create_document_length:
  "length (fst (create_document now oid x docs)) = length docs + 1"
  by (simp add: create_document_def)

lemma seed_again:
  assumes "event db \<noteq> []"
  shows "seed env db = (db, \<lparr>status = ''ok'', message = ''Already seeded''\<rparr>)"
  using assms by (simp add: seed_def estimated_document_count_def)

lemma seed_fresh:
  assumes "event db = []"
  shows "seed env db =
    (db\<lparr>theater := fst (create_document (utcnow env 0) (new_oid env 0) demo_theater (theater db)),
        ownerprofile := create_documents env 1 1 owners (ownerprofile db),
        event := create_documents env 4 3 (demo_events (utcnow env 3)) [],
        video := fst (create_document (utcnow env 8) (new_oid env 6)
                   \<lparr>month_key = strftime_Ym (utcnow env 7),
                     video_url =
                       ''https://cdn.coverr.co/videos/coverr-theatre-actors-having-fun-0044/1080p.mp4'',
                     caption = Some ''Aus dem aktuellen Programm''\<rparr> (video db))\<rparr>,
     \<lparr>status = ''ok'', message = ''Seeded demo data''\<rparr>)"
  using assms by (simp add: seed_def estimated_document_count_def Let_def)

lemma demo_events_length: "length (demo_events t) = 3"
  by (simp add: demo_events_def)

lemma owners_length: "length owners = 2"
  by (simp add: owners_def)

text \<open>
  The events that seeding writes have all their seats available, so seeding keeps the
  seat invariant of the Event documents.
\<close>

lemma seed_seats_ok:
  assumes "\<forall>d\<in>set (event db). seats_ok d"
  shows "\<forall>d\<in>set (event (fst (seed env db))). seats_ok d"
proof (cases "event db = []")
  case True
  have demo: "\<forall>e\<in>set (demo_events (utcnow env 3)).
                0 \<le> seats_available e \<and> seats_available e \<le> seats_total e"
    by (simp add: demo_events_def)
  have "event (fst (seed env db)) = create_documents env 4 3 (demo_events (utcnow env 3)) []"
    by (simp add: seed_fresh [OF True])
  then have "map body (event (fst (seed env db))) = demo_events (utcnow env 3)"
    by (simp add: create_documents_body)
  then have "body ` set (event (fst (seed env db))) = set (demo_events (utcnow env 3))"
    by (metis set_map)
  with demo show ?thesis
    unfolding seats_ok_def by blast
next
  case False
  with assms show ?thesis by (simp add: seed_again)
qed

text \<open>
  C8: seeding is idempotent. On a store with an Event document the handler writes
  nothing and reports "Already seeded". On a store without one it adds one Theater,
  two Ownerprofile, three Event and one Video document, the events being the three demo
  events, and leaves the other collections as they are. A second call, after either,
  writes nothing: two calls leave one set of demo events.
\<close>

theorem seed_idempotent:
  "(event db \<noteq> [] \<longrightarrow> seed env db = (db, \<lparr>status = ''ok'', message = ''Already seeded''\<rparr>)) \<and>
   (event db = [] \<longrightarrow>
      (\<exists>db'. seed env db = (db', \<lparr>status = ''ok'', message = ''Seeded demo data''\<rparr>) \<and>
         length (theater db') = length (theater db) + 1 \<and>
         length (ownerprofile db') = length (ownerprofile db) + 2 \<and>
         length (event db') = 3 \<and>
         map body (event db') = demo_events (utcnow env 3) \<and>
         length (video db') = length (video db) + 1 \<and>
         reservation db' = reservation db \<and>
         contactmessage db' = contactmessage db \<and>
         seed env' db' = (db', \<lparr>status = ''ok'', message = ''Already seeded''\<rparr>))) \<and>
   seed env' (fst (seed env db)) =
     (fst (seed env db), \<lparr>status = ''ok'', message = ''Already seeded''\<rparr>)"
proof (intro conjI impI)
  assume "event db \<noteq> []"
  then show "seed env db = (db, \<lparr>status = ''ok'', message = ''Already seeded''\<rparr>)"
    by (rule seed_again)
next
  assume e: "event db = []"
  let ?db' = "fst (seed env db)"
  have ev: "event ?db' = create_documents env 4 3 (demo_events (utcnow env 3)) []"
    by (simp add: seed_fresh [OF e])
  then have "length (event ?db') = 3"
    by (simp add: create_documents_length demo_events_length)
  then have ne: "event ?db' \<noteq> []" by auto
  have "seed env db = (?db', \<lparr>status = ''ok'', message = ''Seeded demo data''\<rparr>)"
    by (simp add: seed_fresh [OF e])
  moreover have "length (theater ?db') = length (theater db) + 1"
    by (simp add: seed_fresh [OF e] create_document_length)
  moreover have "length (ownerprofile ?db') = length (ownerprofile db) + 2"
    by (simp add: seed_fresh [OF e] create_documents_length owners_length)
  moreover note \<open>length (event ?db') = 3\<close>
  moreover have "map body (event ?db') = demo_events (utcnow env 3)"
    by (simp add: ev create_documents_body)
  moreover have "length (video ?db') = length (video db) + 1"
    by (simp add: seed_fresh [OF e] create_document_length)
  moreover have "reservation ?db' = reservation db" "contactmessage ?db' = contactmessage db"
    by (simp_all add: seed_fresh [OF e])
  moreover have "seed env' ?db' = (?db', \<lparr>status = ''ok'', message = ''Already seeded''\<rparr>)"
    by (rule seed_again [OF ne])
  ultimately show "\<exists>db'. seed env db = (db', \<lparr>status = ''ok'', message = ''Seeded demo data''\<rparr>) \<and>
         length (theater db') = length (theater db) + 1 \<and>
         length (ownerprofile db') = length (ownerprofile db) + 2 \<and>
         length (event db') = 3 \<and>
         map body (event db') = demo_events (utcnow env 3) \<and>
         length (video db') = length (video db) + 1 \<and>
         reservation db' = reservation db \<and>
         contactmessage db' = contactmessage db \<and>
         seed env' db' = (db', \<lparr>status = ''ok'', message = ''Already seeded''\<rparr>)"
    by blast
next
  show "seed env' (fst (seed env db)) =
     (fst (seed env db), \<lparr>status = ''ok'', message = ''Already seeded''\<rparr>)"
  proof (cases "event db = []")
    case True
    have "event (fst (seed env db)) = create_documents env 4 3 (demo_events (utcnow env 3)) []"
      by (simp add: seed_fresh [OF True])
    then have "length (event (fst (seed env db))) = 3"
      by (simp add: create_documents_length demo_events_length)
    then have "event (fst (seed env db)) \<noteq> []" by auto
    then show ?thesis by (rule seed_again)
  next
    case False
    then show ?thesis by (simp add: seed_again)
  qed
qed

theorem seed_idempotent_witness:
  "seed env_a (example_db 5) = (example_db 5, \<lparr>status = ''ok'', message = ''Already seeded''\<rparr>) \<and>
   length (event (fst (seed env_a empty_db))) = 3 \<and>
   length (theater (fst (seed env_a empty_db))) = 1 \<and>
   seed env_b (fst (seed env_a empty_db)) =
     (fst (seed env_a empty_db), \<lparr>status = ''ok'', message = ''Already seeded''\<rparr>)"
proof -
  have n: "event (example_db 5) \<noteq> []" by (simp add: example_events)
  have e: "event empty_db = []" "theater empty_db = []" by (simp_all add: empty_db_def)
  from seed_idempotent [of "example_db 5" env_a] n
  have a: "seed env_a (example_db 5) =
      (example_db 5, \<lparr>status = ''ok'', message = ''Already seeded''\<rparr>)"
    by blast
  from seed_idempotent [of empty_db env_a env_b] e(1) obtain db' where
    s: "seed env_a empty_db = (db', \<lparr>status = ''ok'', message = ''Seeded demo data''\<rparr>)" and
    l: "length (event db') = 3" "length (theater db') = length (theater empty_db) + 1" and
    r: "seed env_b db' = (db', \<lparr>status = ''ok'', message = ''Already seeded''\<rparr>)"
    by blast
  from s have "fst (seed env_a empty_db) = db'" by simp
  with a l r e(2) show ?thesis by simp
qed

end
